theory Spec2Isabelle
  imports Main "HOL-Library.Log_Nat" "HOL-Library.Code_Target_Nat"
begin

section \<open>Strings\<close>

text \<open>
  A JavaScript string is a sequence of UTF-16 code units, the numbers below \<open>2 ^ 16\<close>;
  a code unit is a natural number here. String literals of the source are written
  \<open>str ''...''\<close>; a backslash cannot occur in such a literal and is written \<open>bsl\<close>.
\<close>

type_synonym cu = nat
type_synonym jsstring = "cu list"

definition str :: "string \<Rightarrow> jsstring" where
  "str s = map of_char s"

definition bsl :: cu where
  "bsl = 0x5C"

text \<open>
  \<open>WhiteSpace\<close> and \<open>LineTerminator\<close> of ECMAScript: what \<open>String.prototype.trim\<close>
  strips, what \<open>Number\<close> ignores around a literal and what \<open>\s\<close> matches.
\<close>

definition isWhiteSpace :: "cu \<Rightarrow> bool" where
  "isWhiteSpace c =
     (c = 0x09 \<or> c = 0x0A \<or> c = 0x0B \<or> c = 0x0C \<or> c = 0x0D \<or> c = 0x20 \<or> c = 0xA0
      \<or> c = 0x1680 \<or> (0x2000 \<le> c \<and> c \<le> 0x200A) \<or> c = 0x2028 \<or> c = 0x2029
      \<or> c = 0x202F \<or> c = 0x205F \<or> c = 0x3000 \<or> c = 0xFEFF)"

definition trim :: "jsstring \<Rightarrow> jsstring" where
  "trim s = rev (dropWhile isWhiteSpace (rev (dropWhile isWhiteSpace s)))"

text \<open>\<open>s.split(d)\<close> for a one-character separator: the pieces between the separators,
  empty pieces included.\<close>

fun split :: "cu \<Rightarrow> jsstring \<Rightarrow> jsstring list" where
  "split d [] = [[]]"
| "split d (c # cs) =
     (if c = d then [] # split d cs
      else (case split d cs of [] \<Rightarrow> [[c]] | p # ps \<Rightarrow> (c # p) # ps))"

definition isDigit :: "cu \<Rightarrow> bool" where
  "isDigit c = (0x30 \<le> c \<and> c \<le> 0x39)"

definition digitsValue :: "jsstring \<Rightarrow> nat" where
  "digitsValue ds = foldl (\<lambda>a c. 10 * a + (c - 48)) 0 ds"

section \<open>Numbers\<close>

text \<open>
  A Number is an IEEE 754 binary64 value: not-a-number, an infinity, or a finite value
  given by its sign (\<open>True\<close> for negative, so that \<open>-0\<close> is \<open>Fin True 0\<close>) and its
  magnitude, a rational that a binary64 represents exactly.
\<close>

datatype number = NaN | Inf bool | Fin bool rat

definition roundHalfEven :: "rat \<Rightarrow> int" where
  "roundHalfEven q =
     (let f = \<lfloor>q\<rfloor>; d = q - of_int f
      in if d < 1 / 2 then f else if 1 / 2 < d then f + 1 else if even f then f else f + 1)"

text \<open>The exponent \<open>e\<close> with \<open>2 ^ e \<le> r < 2 ^ (e + 1)\<close>, for positive \<open>r\<close>.\<close>

definition binade :: "rat \<Rightarrow> int" where
  "binade r =
     (case quotient_of r of (a, b) \<Rightarrow>
        (let e = bitlen a - bitlen b in if 2 powi e \<le> r then e else e - 1))"

text \<open>
  The Number value for a non-negative mathematical value: round to nearest, ties to
  even, with 53 bits of precision, gradual underflow below \<open>2 ^ -1022\<close> and overflow to
  infinity.
\<close>

definition toDouble :: "bool \<Rightarrow> rat \<Rightarrow> number" where
  "toDouble neg r =
     (if r = 0 then Fin neg 0
      else (let e = max (binade r) (- 1022);
                q = 2 powi (e - 52);
                v = of_int (roundHalfEven (r / q)) * q
            in if 2 ^ 1024 \<le> v then Inf neg else Fin neg v))"

definition num :: "nat \<Rightarrow> number" where
  "num n = Fin False (of_nat n)"

text \<open>
  \<open>Number(s)\<close> on a string (\<open>StringToNumber\<close>): surrounding white space is ignored, the
  empty string is \<open>0\<close>, then a hexadecimal, octal or binary integer without sign, or a
  signed decimal literal or \<open>Infinity\<close>; anything else is \<open>NaN\<close>.
\<close>

definition radixDigit :: "nat \<Rightarrow> cu \<Rightarrow> nat option" where
  "radixDigit b c =
     (let v = (if 0x30 \<le> c \<and> c \<le> 0x39 then c - 0x30
               else if 0x61 \<le> c \<and> c \<le> 0x66 then c - 0x61 + 10
               else if 0x41 \<le> c \<and> c \<le> 0x46 then c - 0x41 + 10
               else 16)
      in if v < b then Some v else None)"

fun radixValue :: "nat \<Rightarrow> nat \<Rightarrow> jsstring \<Rightarrow> nat option" where
  "radixValue b acc [] = Some acc"
| "radixValue b acc (c # cs) =
     (case radixDigit b c of None \<Rightarrow> None | Some v \<Rightarrow> radixValue b (b * acc + v) cs)"

definition nonDecimalLiteral :: "jsstring \<Rightarrow> nat option" where
  "nonDecimalLiteral t =
     (case t of
        z # x # d # ds \<Rightarrow>
          (if z \<noteq> 0x30 then None
           else if x = 0x78 \<or> x = 0x58 then radixValue 16 0 (d # ds)
           else if x = 0x6F \<or> x = 0x4F then radixValue 8 0 (d # ds)
           else if x = 0x62 \<or> x = 0x42 then radixValue 2 0 (d # ds)
           else None)
      | _ \<Rightarrow> None)"

definition exponentPart :: "jsstring \<Rightarrow> int option" where
  "exponentPart r =
     (case r of
        [] \<Rightarrow> Some 0
      | c # cs \<Rightarrow>
          (if c = 0x65 \<or> c = 0x45 then
             (let neg = (case cs of [] \<Rightarrow> False | s # _ \<Rightarrow> s = 0x2D);
                  ds = (case cs of [] \<Rightarrow> [] | s # r' \<Rightarrow> if s = 0x2D \<or> s = 0x2B then r' else cs)
              in if ds \<noteq> [] \<and> list_all isDigit ds
                 then Some (if neg then - int (digitsValue ds) else int (digitsValue ds))
                 else None)
           else None))"

definition unsignedDecimal :: "bool \<Rightarrow> jsstring \<Rightarrow> number" where
  "unsignedDecimal neg u =
     (if u = str ''Infinity'' then Inf neg
      else (let ip = takeWhile isDigit u;
                r1 = dropWhile isDigit u;
                dotted = (case r1 of [] \<Rightarrow> False | d # _ \<Rightarrow> d = 0x2E);
                fp = (if dotted then takeWhile isDigit (tl r1) else []);
                r2 = (if dotted then dropWhile isDigit (tl r1) else r1)
            in if ip = [] \<and> fp = [] then NaN
               else (case exponentPart r2 of
                       None \<Rightarrow> NaN
                     | Some e \<Rightarrow>
                         toDouble neg
                           (of_nat (digitsValue (ip @ fp)) * 10 powi (e - int (length fp))))))"

definition Number :: "jsstring \<Rightarrow> number" where
  "Number s =
     (let t = trim s
      in if t = [] then Fin False 0
         else (case nonDecimalLiteral t of
                 Some n \<Rightarrow> toDouble False (of_nat n)
               | None \<Rightarrow>
                   (case t of
                      [] \<Rightarrow> NaN
                    | c # cs \<Rightarrow>
                        if c = 0x2D then unsignedDecimal True cs
                        else if c = 0x2B then unsignedDecimal False cs
                        else unsignedDecimal False t)))"

definition Number_isNaN :: "number \<Rightarrow> bool" where
  "Number_isNaN n = (n = NaN)"

definition Number_isInteger :: "number \<Rightarrow> bool" where
  "Number_isInteger n = (case n of Fin _ r \<Rightarrow> r = of_int \<lfloor>r\<rfloor> | _ \<Rightarrow> False)"

section \<open>Values\<close>

text \<open>
  The values the extractor handles (TypeScript's \<open>unknown\<close>, as far as the code can meet
  it): the values \<open>JSON.parse\<close> builds, \<open>undefined\<close>, and what a property read on a parsed
  object can reach through its prototype: the built-in functions of \<open>Object.prototype\<close>
  and that prototype object itself. An object is its list of fields in source order; a
  later field of the same name overrides an earlier one.
\<close>

datatype jsval =
    Undefined
  | Null
  | Bool bool
  | Num number
  | Str jsstring
  | Arr "jsval list"
  | Obj "(jsstring \<times> jsval) list"
  | Fun jsstring
  | ObjectPrototype

definition typeof :: "jsval \<Rightarrow> string" where
  "typeof v =
     (case v of
        Undefined \<Rightarrow> ''undefined''
      | Null \<Rightarrow> ''object''
      | Bool _ \<Rightarrow> ''boolean''
      | Num _ \<Rightarrow> ''number''
      | Str _ \<Rightarrow> ''string''
      | Arr _ \<Rightarrow> ''object''
      | Obj _ \<Rightarrow> ''object''
      | Fun _ \<Rightarrow> ''function''
      | ObjectPrototype \<Rightarrow> ''object'')"

definition isArray :: "jsval \<Rightarrow> bool" where
  "isArray v = (case v of Arr _ \<Rightarrow> True | _ \<Rightarrow> False)"

definition isObject :: "jsval \<Rightarrow> bool" where
  "isObject v = (typeof v = ''object'' \<and> v \<noteq> Null \<and> \<not> isArray v)"

text \<open>The function-valued properties of \<open>Object.prototype\<close>.\<close>

definition prototypeFunctions :: "jsstring list" where
  "prototypeFunctions =
     map str [''constructor'', ''hasOwnProperty'', ''isPrototypeOf'', ''propertyIsEnumerable'',
       ''toLocaleString'', ''toString'', ''valueOf'', ''__defineGetter__'', ''__defineSetter__'',
       ''__lookupGetter__'', ''__lookupSetter__'']"

text \<open>\<open>o[p]\<close> for a string \<open>p\<close> on a non-array object: an own field first, then the
  prototype; \<open>__proto__\<close> is the accessor that reads the object's prototype.\<close>

definition getProperty :: "jsval \<Rightarrow> jsstring \<Rightarrow> jsval" where
  "getProperty v p =
     (case v of
        Obj fields \<Rightarrow>
          (case map_of (rev fields) p of
             Some x \<Rightarrow> x
           | None \<Rightarrow>
               if p \<in> set prototypeFunctions then Fun p
               else if p = str ''__proto__'' then ObjectPrototype
               else Undefined)
      | ObjectPrototype \<Rightarrow>
          (if p \<in> set prototypeFunctions then Fun p
           else if p = str ''__proto__'' then Null
           else Undefined)
      | _ \<Rightarrow> Undefined)"

text \<open>\<open>a[idx]\<close> for an integral Number \<open>idx\<close> on an array: the property named by the
  decimal form of \<open>idx\<close>, so \<open>-0\<close> reads element \<open>0\<close> and any index that is negative or
  beyond the last element reads \<open>undefined\<close>.\<close>

definition getIndex :: "jsval \<Rightarrow> number \<Rightarrow> jsval" where
  "getIndex v idx =
     (case (v, idx) of
        (Arr xs, Fin neg r) \<Rightarrow>
          (if neg \<and> r \<noteq> 0 then Undefined
           else if nat \<lfloor>r\<rfloor> < length xs then xs ! nat \<lfloor>r\<rfloor>
           else Undefined)
      | _ \<Rightarrow> Undefined)"

section \<open>The path resolver\<close>

text \<open>
  \<^verbatim>\<open>
  function getByPath(obj: unknown, path: string): unknown {
    if (!isObject(obj)) return undefined
    const parts = path.split(".").filter(Boolean)
    let cur: unknown = obj
    for (const p of parts) {
      if (cur == null) return undefined
      if (Array.isArray(cur)) {
        const idx = Number(p)
        cur = Number.isInteger(idx) ? cur[idx] : undefined
      } else if (isObject(cur)) {
        cur = (cur as Record<string, unknown>)[p]
      } else {
        return undefined
      }
    }
    return cur
  }
  \<close>
  No step of the loop can throw: the property reads are guarded by \<open>Array.isArray\<close> and
  \<open>isObject\<close>, so they never meet \<open>null\<close> or \<open>undefined\<close>.
\<close>

definition pathParts :: "jsstring \<Rightarrow> jsstring list" where
  "pathParts path = filter (\<lambda>p. p \<noteq> []) (split 0x2E path)"

fun getByPath_loop :: "jsval \<Rightarrow> jsstring list \<Rightarrow> jsval" where
  "getByPath_loop cur [] = cur"
| "getByPath_loop cur (p # ps) =
     (if cur = Null \<or> cur = Undefined then Undefined
      else if isArray cur then
        getByPath_loop
          (let idx = Number p in if Number_isInteger idx then getIndex cur idx else Undefined) ps
      else if isObject cur then getByPath_loop (getProperty cur p) ps
      else Undefined)"

definition getByPath :: "jsval \<Rightarrow> jsstring \<Rightarrow> jsval" where
  "getByPath obj path =
     (if \<not> isObject obj then Undefined else getByPath_loop obj (pathParts path))"

section \<open>Exceptions\<close>

text \<open>
  What the built-ins used by the extractor can throw: \<open>JSON.parse\<close> and \<open>new RegExp\<close> a
  \<open>SyntaxError\<close>, \<open>new URL\<close> a \<open>TypeError\<close>, \<open>decodeURIComponent\<close> a \<open>URIError\<close>. A
  function that can throw returns \<open>Inl\<close> of the exception; \<open>try ... catch\<close> is a case
  distinction on that. \<open>NotModelled\<close> marks regular-expression syntax that the model of
  \<open>new RegExp\<close> below does not cover.
\<close>

datatype exn = SyntaxError | TypeError | URIError | NotModelled

section \<open>JSON.parse\<close>

text \<open>
  The JSON grammar of ECMA-404 as \<open>JSON.parse\<close> accepts it, in two passes that each read
  their input once from left to right: a scanner from code units to tokens, and a
  parser that keeps the enclosing arrays and objects on a stack.
\<close>

datatype jtoken =
    TLBrace | TRBrace | TLBracket | TRBracket | TColon | TComma
  | TString jsstring
  | TWord jsstring

datatype lexstate = LTop | LWord jsstring | LStr jsstring | LEsc jsstring

definition isJsonSpace :: "cu \<Rightarrow> bool" where
  "isJsonSpace c = (c = 0x09 \<or> c = 0x0A \<or> c = 0x0D \<or> c = 0x20)"

text \<open>The characters of numbers and of \<open>true\<close>, \<open>false\<close>, \<open>null\<close>; a maximal run of them
  is one token, which the parser accepts only if it is one of these literals.\<close>

definition isWordChar :: "cu \<Rightarrow> bool" where
  "isWordChar c =
     ((0x30 \<le> c \<and> c \<le> 0x39) \<or> (0x61 \<le> c \<and> c \<le> 0x7A) \<or> (0x41 \<le> c \<and> c \<le> 0x5A)
      \<or> c = 0x2D \<or> c = 0x2B \<or> c = 0x2E)"

text \<open>A code unit that starts no word, outside a string: the token it makes, if any, and
  the state after it; \<open>None\<close> when it is not allowed there.\<close>

definition lexTop :: "cu \<Rightarrow> (jtoken list \<times> lexstate) option" where
  "lexTop c =
     (if isJsonSpace c then Some ([], LTop)
      else if c = 0x7B then Some ([TLBrace], LTop)
      else if c = 0x7D then Some ([TRBrace], LTop)
      else if c = 0x5B then Some ([TLBracket], LTop)
      else if c = 0x5D then Some ([TRBracket], LTop)
      else if c = 0x3A then Some ([TColon], LTop)
      else if c = 0x2C then Some ([TComma], LTop)
      else if c = 0x22 then Some ([], LStr [])
      else None)"

definition hex4 :: "cu \<Rightarrow> cu \<Rightarrow> cu \<Rightarrow> cu \<Rightarrow> cu option" where
  "hex4 a b c d =
     (case (radixDigit 16 a, radixDigit 16 b, radixDigit 16 c, radixDigit 16 d) of
        (Some x, Some y, Some z, Some w) \<Rightarrow> Some (((x * 16 + y) * 16 + z) * 16 + w)
      | _ \<Rightarrow> None)"

definition simpleEscape :: "cu \<Rightarrow> cu option" where
  "simpleEscape c =
     (if c = 0x22 \<or> c = 0x5C \<or> c = 0x2F then Some c
      else if c = 0x62 then Some 0x08
      else if c = 0x66 then Some 0x0C
      else if c = 0x6E then Some 0x0A
      else if c = 0x72 then Some 0x0D
      else if c = 0x74 then Some 0x09
      else None)"

definition emit :: "jtoken list \<Rightarrow> jtoken list option \<Rightarrow> jtoken list option" where
  "emit ts r = (case r of None \<Rightarrow> None | Some us \<Rightarrow> Some (ts @ us))"

fun json_lex :: "lexstate \<Rightarrow> jsstring \<Rightarrow> jtoken list option" where
  "json_lex LTop [] = Some []"
| "json_lex (LWord acc) [] = Some [TWord (rev acc)]"
| "json_lex (LStr acc) [] = None"
| "json_lex (LEsc acc) [] = None"
| "json_lex LTop (c # cs) =
     (if isWordChar c then json_lex (LWord [c]) cs
      else (case lexTop c of None \<Rightarrow> None | Some (ts, st) \<Rightarrow> emit ts (json_lex st cs)))"
| "json_lex (LWord acc) (c # cs) =
     (if isWordChar c then json_lex (LWord (c # acc)) cs
      else (case lexTop c of
              None \<Rightarrow> None
            | Some (ts, st) \<Rightarrow> emit (TWord (rev acc) # ts) (json_lex st cs)))"
| "json_lex (LStr acc) (c # cs) =
     (if c = 0x22 then emit [TString (rev acc)] (json_lex LTop cs)
      else if c = 0x5C then json_lex (LEsc acc) cs
      else if c < 0x20 then None
      else json_lex (LStr (c # acc)) cs)"
| "json_lex (LEsc acc) (c # cs) =
     (if c = 0x75 then
        (case cs of
           h1 # h2 # h3 # h4 # rest \<Rightarrow>
             (case hex4 h1 h2 h3 h4 of
                None \<Rightarrow> None
              | Some u \<Rightarrow> json_lex (LStr (u # acc)) rest)
         | _ \<Rightarrow> None)
      else (case simpleEscape c of None \<Rightarrow> None | Some e \<Rightarrow> json_lex (LStr (e # acc)) cs))"

text \<open>A JSON number: \<open>-? (0 | [1-9][0-9]*) (. [0-9]+)? ([eE] [+-]? [0-9]+)?\<close>.\<close>

definition isJsonNumber :: "jsstring \<Rightarrow> bool" where
  "isJsonNumber w =
     (let u = (case w of [] \<Rightarrow> [] | c # cs \<Rightarrow> if c = 0x2D then cs else w);
          ip = takeWhile isDigit u;
          r1 = dropWhile isDigit u;
          dotted = (case r1 of [] \<Rightarrow> False | d # _ \<Rightarrow> d = 0x2E);
          fp = (if dotted then takeWhile isDigit (tl r1) else []);
          r2 = (if dotted then dropWhile isDigit (tl r1) else r1)
      in ip \<noteq> [] \<and> (length ip = 1 \<or> hd ip \<noteq> 0x30) \<and> (\<not> dotted \<or> fp \<noteq> [])
         \<and> exponentPart r2 \<noteq> None)"

definition wordValue :: "jsstring \<Rightarrow> jsval option" where
  "wordValue w =
     (if w = str ''true'' then Some (Bool True)
      else if w = str ''false'' then Some (Bool False)
      else if w = str ''null'' then Some Null
      else if isJsonNumber w then Some (Num (Number w))
      else None)"

datatype frame =
    FArr "jsval list"
  | FObj "(jsstring \<times> jsval) list"
  | FKey "(jsstring \<times> jsval) list" jsstring

datatype pmode = PValue | PArrFirst | PObjFirst | PKey | PColon | PAfter | PDone jsval

text \<open>A value is complete: it is the result, the next element of the array being read,
  or the value of the field whose key was read.\<close>

definition complete :: "jsval \<Rightarrow> frame list \<Rightarrow> (frame list \<times> pmode) option" where
  "complete v stack =
     (case stack of
        [] \<Rightarrow> Some ([], PDone v)
      | FArr acc # fs \<Rightarrow> Some (FArr (v # acc) # fs, PAfter)
      | FKey acc k # fs \<Rightarrow> Some (FObj ((k, v) # acc) # fs, PAfter)
      | FObj acc # fs \<Rightarrow> None)"

definition startValue :: "frame list \<Rightarrow> jtoken \<Rightarrow> (frame list \<times> pmode) option" where
  "startValue stack t =
     (case t of
        TString s \<Rightarrow> complete (Str s) stack
      | TWord w \<Rightarrow> (case wordValue w of None \<Rightarrow> None | Some v \<Rightarrow> complete v stack)
      | TLBracket \<Rightarrow> Some (FArr [] # stack, PArrFirst)
      | TLBrace \<Rightarrow> Some (FObj [] # stack, PObjFirst)
      | _ \<Rightarrow> None)"

definition closeArray :: "frame list \<Rightarrow> (frame list \<times> pmode) option" where
  "closeArray stack =
     (case stack of FArr acc # fs \<Rightarrow> complete (Arr (rev acc)) fs | _ \<Rightarrow> None)"

definition closeObject :: "frame list \<Rightarrow> (frame list \<times> pmode) option" where
  "closeObject stack =
     (case stack of FObj acc # fs \<Rightarrow> complete (Obj (rev acc)) fs | _ \<Rightarrow> None)"

definition readKey :: "frame list \<Rightarrow> jtoken \<Rightarrow> (frame list \<times> pmode) option" where
  "readKey stack t =
     (case (stack, t) of
        (FObj acc # fs, TString k) \<Rightarrow> Some (FKey acc k # fs, PColon)
      | _ \<Rightarrow> None)"

definition json_step :: "frame list \<Rightarrow> pmode \<Rightarrow> jtoken \<Rightarrow> (frame list \<times> pmode) option" where
  "json_step stack mode t =
     (case mode of
        PValue \<Rightarrow> startValue stack t
      | PArrFirst \<Rightarrow> (if t = TRBracket then closeArray stack else startValue stack t)
      | PObjFirst \<Rightarrow> (if t = TRBrace then closeObject stack else readKey stack t)
      | PKey \<Rightarrow> readKey stack t
      | PColon \<Rightarrow> (if t = TColon then Some (stack, PValue) else None)
      | PAfter \<Rightarrow>
          (if t = TComma then
             (case stack of
                FArr acc # fs \<Rightarrow> Some (stack, PValue)
              | FObj acc # fs \<Rightarrow> Some (stack, PKey)
              | _ \<Rightarrow> None)
           else if t = TRBracket then closeArray stack
           else if t = TRBrace then closeObject stack
           else None)
      | PDone v \<Rightarrow> None)"

fun json_run :: "frame list \<Rightarrow> pmode \<Rightarrow> jtoken list \<Rightarrow> jsval option" where
  "json_run stack mode [] = (case mode of PDone v \<Rightarrow> Some v | _ \<Rightarrow> None)"
| "json_run stack mode (t # ts) =
     (case json_step stack mode t of
        None \<Rightarrow> None
      | Some (stack', mode') \<Rightarrow> json_run stack' mode' ts)"

definition JSON_parse :: "jsstring \<Rightarrow> exn + jsval" where
  "JSON_parse text =
     (case json_lex LTop text of
        None \<Rightarrow> Inl SyntaxError
      | Some ts \<Rightarrow> (case json_run [] PValue ts of None \<Rightarrow> Inl SyntaxError | Some v \<Rightarrow> Inr v))"

text \<open>
  \<^verbatim>\<open>
  function tryParseJson(input: string): unknown | undefined {
    const trimmed = input.trim()
    if (!trimmed) return undefined
    try {
      return JSON.parse(trimmed)
    } catch {
      return undefined
    }
  }
  \<close>
\<close>

definition tryParseJson :: "jsstring \<Rightarrow> jsval" where
  "tryParseJson input =
     (let trimmed = trim input
      in if trimmed = [] then Undefined
         else (case JSON_parse trimmed of Inr v \<Rightarrow> v | Inl e \<Rightarrow> Undefined))"

section \<open>The platform\<close>

text \<open>
  Three built-ins are parameters of the model rather than definitions in it, since what
  they compute is fixed by standards far larger than the program: the URL parser
  (\<open>new URL(s)\<close>, which throws a \<open>TypeError\<close> or yields a URL, of which the program reads
  only the query string behind \<open>searchParams\<close>), and the Unicode case conversions
  \<open>toUpperCase\<close> and \<open>toLowerCase\<close>, consulted only for text outside ASCII.

  A fourth parameter is a limit of the engine rather than of the language: the longest
  run of literal pattern text the regular-expression compiler accepts. A pattern with a
  longer run is refused with the \<open>SyntaxError\<close> ``Regular expression too large'' when it
  is first matched. In V8 the limit is 32767 characters.
\<close>

record platform =
  new_URL :: "jsstring \<Rightarrow> exn + jsstring"
  toUpperCase :: "jsstring \<Rightarrow> jsstring"
  toLowerCase :: "jsstring \<Rightarrow> jsstring"
  regexpLimit :: nat

abbreviation ch :: "char \<Rightarrow> cu" where
  "ch c \<equiv> of_char c"

definition asciiUpper :: "cu \<Rightarrow> cu" where
  "asciiUpper c = (if 0x61 \<le> c \<and> c \<le> 0x7A then c - 0x20 else c)"

definition asciiLower :: "cu \<Rightarrow> cu" where
  "asciiLower c = (if 0x41 \<le> c \<and> c \<le> 0x5A then c + 0x20 else c)"

definition String_toLowerCase :: "platform \<Rightarrow> jsstring \<Rightarrow> jsstring" where
  "String_toLowerCase P s =
     (if list_all (\<lambda>c. c < 0x80) s then map asciiLower s else toLowerCase P s)"

section \<open>Regular expressions\<close>

text \<open>
  \<open>new RegExp(pattern, flags)\<close> parses the pattern text; \<open>s.match(re)\<close> then searches \<open>s\<close>
  for the first position at which the pattern matches, by backtracking. The model
  covers the pattern syntax the program's templates use: literal characters, \<open>\\<close>
  before a syntax character, \<open>\s\<close> and \<open>\d\<close>, character classes without ranges, \<open>^\<close>,
  \<open>|\<close>, capturing groups and \<open>(?:\<close> groups, and \<open>*\<close> and \<open>+\<close> on a single character or
  class. Other syntax is reported as \<open>NotModelled\<close>.
\<close>

datatype citem = CChar cu | CSpace | CDigit

datatype atom = AChar cu | AClass bool "citem list"

datatype node =
    NEmpty
  | NAtom atom
  | NStar atom
  | NPlus atom
  | NBol
  | NSeq node node
  | NAlt node node
  | NGroup nat node

datatype rtoken = RAtom atom | ROpen bool | RClose | RBar | RStar | RPlus | RBol

datatype relex = RTop | RClass bool "citem list"

text \<open>\<open>SyntaxCharacter\<close> of ECMAScript: \<open>^ $ \ . * + ? ( ) [ ] { } |\<close>.\<close>

definition isSyntaxChar :: "cu \<Rightarrow> bool" where
  "isSyntaxChar c = (c = bsl \<or> c \<in> set (str ''^$.*+?()[]{}|''))"

definition escapeAtom :: "cu \<Rightarrow> atom option" where
  "escapeAtom d =
     (if d = ch CHR ''s'' then Some (AClass False [CSpace])
      else if d = ch CHR ''d'' then Some (AClass False [CDigit])
      else if isSyntaxChar d then Some (AChar d)
      else None)"

definition classEscape :: "cu \<Rightarrow> citem option" where
  "classEscape d =
     (if d = ch CHR ''s'' then Some CSpace
      else if d = ch CHR ''d'' then Some CDigit
      else if isSyntaxChar d \<or> d = ch CHR ''-'' then Some (CChar d)
      else None)"

definition rcons :: "rtoken \<Rightarrow> exn + rtoken list \<Rightarrow> exn + rtoken list" where
  "rcons t r = (case r of Inl e \<Rightarrow> Inl e | Inr ts \<Rightarrow> Inr (t # ts))"

fun re_lex :: "relex \<Rightarrow> jsstring \<Rightarrow> exn + rtoken list" where
  "re_lex RTop [] = Inr []"
| "re_lex (RClass neg acc) [] = Inl SyntaxError"
| "re_lex RTop (c # cs) =
     (if c = bsl then
        (case cs of
           [] \<Rightarrow> Inl SyntaxError
         | d # ds \<Rightarrow>
             (case escapeAtom d of
                None \<Rightarrow> Inl NotModelled
              | Some a \<Rightarrow> rcons (RAtom a) (re_lex RTop ds)))
      else if c = ch CHR ''['' then
        (case cs of
           [] \<Rightarrow> Inl SyntaxError
         | d # ds \<Rightarrow>
             if d = ch CHR ''^'' then re_lex (RClass True []) ds
             else re_lex (RClass False []) cs)
      else if c = ch CHR ''('' then
        (case cs of
           [] \<Rightarrow> Inl SyntaxError
         | q # ds \<Rightarrow>
             if q = ch CHR ''?'' then
               (case ds of
                  [] \<Rightarrow> Inl SyntaxError
                | k # es \<Rightarrow>
                    if k = ch CHR '':'' then rcons (ROpen False) (re_lex RTop es)
                    else Inl NotModelled)
             else rcons (ROpen True) (re_lex RTop cs))
      else if c = ch CHR '')'' then rcons RClose (re_lex RTop cs)
      else if c = ch CHR ''|'' then rcons RBar (re_lex RTop cs)
      else if c = ch CHR ''*'' then rcons RStar (re_lex RTop cs)
      else if c = ch CHR ''+'' then rcons RPlus (re_lex RTop cs)
      else if c = ch CHR ''^'' then rcons RBol (re_lex RTop cs)
      else if isSyntaxChar c then Inl NotModelled
      else rcons (RAtom (AChar c)) (re_lex RTop cs))"
| "re_lex (RClass neg acc) (c # cs) =
     (if c = ch CHR '']'' then rcons (RAtom (AClass neg (rev acc))) (re_lex RTop cs)
      else if c = bsl then
        (case cs of
           [] \<Rightarrow> Inl SyntaxError
         | d # ds \<Rightarrow>
             (case classEscape d of
                None \<Rightarrow> Inl NotModelled
              | Some i \<Rightarrow> re_lex (RClass neg (i # acc)) ds))
      else if c = ch CHR ''-'' then Inl NotModelled
      else re_lex (RClass neg (CChar c # acc)) cs)"

text \<open>A group being read: its capture number if it captures, the alternatives finished
  so far and the terms of the current alternative, both latest first.\<close>

datatype rframe = RFrame "nat option" "node list" "node list"

definition mkSeq :: "node list \<Rightarrow> node" where
  "mkSeq ns = foldr NSeq ns NEmpty"

fun mkAlt :: "node list \<Rightarrow> node" where
  "mkAlt [] = NEmpty"
| "mkAlt [n] = n"
| "mkAlt (n # ns) = NAlt n (mkAlt ns)"

definition closeFrame :: "rframe \<Rightarrow> node" where
  "closeFrame f =
     (case f of RFrame cap alts terms \<Rightarrow>
        (let body = mkAlt (rev (mkSeq (rev terms) # alts))
         in case cap of None \<Rightarrow> body | Some i \<Rightarrow> NGroup i body))"

definition pushTerm :: "node \<Rightarrow> rframe \<Rightarrow> rframe" where
  "pushTerm n f = (case f of RFrame cap alts terms \<Rightarrow> RFrame cap alts (n # terms))"

definition quantify :: "(atom \<Rightarrow> node) \<Rightarrow> rframe \<Rightarrow> exn + rframe" where
  "quantify q f =
     (case f of RFrame cap alts terms \<Rightarrow>
        (case terms of
           [] \<Rightarrow> Inl SyntaxError
         | NAtom a # ts \<Rightarrow> Inr (RFrame cap alts (q a # ts))
         | NStar a # ts \<Rightarrow> Inl SyntaxError
         | NPlus a # ts \<Rightarrow> Inl SyntaxError
         | NBol # ts \<Rightarrow> Inl SyntaxError
         | _ \<Rightarrow> Inl NotModelled))"

type_synonym rstate = "nat \<times> rframe \<times> rframe list"

definition re_step :: "rstate \<Rightarrow> rtoken \<Rightarrow> exn + rstate" where
  "re_step st t =
     (case st of (n, cur, outer) \<Rightarrow>
        (case t of
           RAtom a \<Rightarrow> Inr (n, pushTerm (NAtom a) cur, outer)
         | RBol \<Rightarrow> Inr (n, pushTerm NBol cur, outer)
         | RStar \<Rightarrow> (case quantify NStar cur of Inl e \<Rightarrow> Inl e | Inr f \<Rightarrow> Inr (n, f, outer))
         | RPlus \<Rightarrow> (case quantify NPlus cur of Inl e \<Rightarrow> Inl e | Inr f \<Rightarrow> Inr (n, f, outer))
         | ROpen capturing \<Rightarrow>
             (if capturing then Inr (Suc n, RFrame (Some (Suc n)) [] [], cur # outer)
              else Inr (n, RFrame None [] [], cur # outer))
         | RClose \<Rightarrow>
             (case outer of
                [] \<Rightarrow> Inl SyntaxError
              | f # fs \<Rightarrow> Inr (n, pushTerm (closeFrame cur) f, fs))
         | RBar \<Rightarrow>
             (case cur of RFrame cap alts terms \<Rightarrow>
                Inr (n, RFrame cap (mkSeq (rev terms) # alts) [], outer))))"

fun re_parse :: "rstate \<Rightarrow> rtoken list \<Rightarrow> exn + node" where
  "re_parse st [] =
     (case st of (n, cur, outer) \<Rightarrow> if outer = [] then Inr (closeFrame cur) else Inl SyntaxError)"
| "re_parse st (t # ts) =
     (case re_step st t of Inl e \<Rightarrow> Inl e | Inr st' \<Rightarrow> re_parse st' ts)"

record regexp =
  pattern :: node
  ignoreCase :: bool

text \<open>\<open>new RegExp(source, "i")\<close> when \<open>i\<close> is \<open>True\<close>, \<open>new RegExp(source)\<close> otherwise.\<close>

definition RegExp :: "jsstring \<Rightarrow> bool \<Rightarrow> exn + regexp" where
  "RegExp source i =
     (case re_lex RTop source of
        Inl e \<Rightarrow> Inl e
      | Inr ts \<Rightarrow>
          (case re_parse (0, RFrame None [] [], []) ts of
             Inl e \<Rightarrow> Inl e
           | Inr n \<Rightarrow> Inr \<lparr>pattern = n, ignoreCase = i\<rparr>))"

text \<open>
  \<open>Canonicalize\<close> of ECMAScript for a pattern without the \<open>u\<close> flag: with \<open>ignoreCase\<close>, two
  code units match when their upper-case forms agree, where a code unit whose upper
  case is not a single code unit, or would fall into ASCII from outside, stands for
  itself.
\<close>

definition Canonicalize :: "platform \<Rightarrow> bool \<Rightarrow> cu \<Rightarrow> cu" where
  "Canonicalize P i c =
     (if \<not> i then c
      else if c < 0x80 then asciiUpper c
      else (let u = toUpperCase P [c]
            in if length u \<noteq> 1 then c else if hd u < 0x80 then c else hd u))"

definition itemMatches :: "platform \<Rightarrow> bool \<Rightarrow> citem \<Rightarrow> cu \<Rightarrow> bool" where
  "itemMatches P i it c =
     (case it of
        CChar d \<Rightarrow> Canonicalize P i d = Canonicalize P i c
      | CSpace \<Rightarrow> isWhiteSpace c
      | CDigit \<Rightarrow> isDigit c)"

definition atomMatches :: "platform \<Rightarrow> bool \<Rightarrow> atom \<Rightarrow> cu \<Rightarrow> bool" where
  "atomMatches P i a c =
     (case a of
        AChar d \<Rightarrow> Canonicalize P i d = Canonicalize P i c
      | AClass neg items \<Rightarrow> list_ex (\<lambda>it. itemMatches P i it c) items \<noteq> neg)"

text \<open>A point of a match in progress: the text still ahead, its index in the subject
  and the groups captured so far, latest first.\<close>

record mstate =
  ahead :: jsstring
  index :: nat
  captures :: "(nat \<times> jsstring) list"

text \<open>The ways a greedy repetition of one atom can end, longest first.\<close>

fun repeatAtom :: "(cu \<Rightarrow> bool) \<Rightarrow> jsstring \<Rightarrow> nat \<Rightarrow> (jsstring \<times> nat) list" where
  "repeatAtom p [] n = [([], n)]"
| "repeatAtom p (c # cs) n =
     (if p c then repeatAtom p cs (Suc n) @ [(c # cs, n)] else [(c # cs, n)])"

text \<open>All the ways a pattern matches at a point, in the order backtracking tries them.\<close>

fun matchNode :: "platform \<Rightarrow> bool \<Rightarrow> node \<Rightarrow> mstate \<Rightarrow> mstate list" where
  "matchNode P i NEmpty st = [st]"
| "matchNode P i (NAtom a) st =
     (case ahead st of
        [] \<Rightarrow> []
      | c # cs \<Rightarrow> if atomMatches P i a c then [st\<lparr>ahead := cs, index := Suc (index st)\<rparr>] else [])"
| "matchNode P i (NStar a) st =
     map (\<lambda>(r, n). st\<lparr>ahead := r, index := n\<rparr>) (repeatAtom (atomMatches P i a) (ahead st) (index st))"
| "matchNode P i (NPlus a) st =
     (case ahead st of
        [] \<Rightarrow> []
      | c # cs \<Rightarrow>
          if atomMatches P i a c
          then map (\<lambda>(r, n). st\<lparr>ahead := r, index := n\<rparr>)
                 (repeatAtom (atomMatches P i a) cs (Suc (index st)))
          else [])"
| "matchNode P i NBol st = (if index st = 0 then [st] else [])"
| "matchNode P i (NSeq a b) st = concat (map (matchNode P i b) (matchNode P i a st))"
| "matchNode P i (NAlt a b) st = matchNode P i a st @ matchNode P i b st"
| "matchNode P i (NGroup g a) st =
     map (\<lambda>st'. st'\<lparr>captures := (g, take (index st' - index st) (ahead st)) # captures st'\<rparr>)
       (matchNode P i a st)"

text \<open>The search of \<open>exec\<close>: the first start position, from the left, at which the
  pattern matches, with the first way it matches there.\<close>

fun searchFrom :: "platform \<Rightarrow> regexp \<Rightarrow> jsstring \<Rightarrow> nat \<Rightarrow> mstate option" where
  "searchFrom P re [] n =
     (case matchNode P (ignoreCase re) (pattern re) \<lparr>ahead = [], index = n, captures = []\<rparr> of
        [] \<Rightarrow> None
      | st # _ \<Rightarrow> Some st)"
| "searchFrom P re (c # cs) n =
     (case matchNode P (ignoreCase re) (pattern re) \<lparr>ahead = c # cs, index = n, captures = []\<rparr> of
        [] \<Rightarrow> searchFrom P re cs (Suc n)
      | st # _ \<Rightarrow> Some st)"

text \<open>\<open>RegExpBuiltinExec\<close> at index 0, for a pattern without the \<open>g\<close> flag: \<open>None\<close> is
  \<open>null\<close>; otherwise the groups, where \<open>m[g]\<close> is \<open>undefined\<close> for a group that took no
  part in the match.\<close>

definition RegExp_exec :: "platform \<Rightarrow> jsstring \<Rightarrow> regexp \<Rightarrow> (nat \<Rightarrow> jsval) option" where
  "RegExp_exec P s re =
     (case searchFrom P re s 0 of
        None \<Rightarrow> None
      | Some st \<Rightarrow>
          Some (\<lambda>g. case map_of (captures st) g of None \<Rightarrow> Undefined | Some x \<Rightarrow> Str x))"

text \<open>The size of a pattern for the compiler: the length of the run of single
  characters and classes a sequence starts with, and the longest such run anywhere in
  the pattern.\<close>

fun textRun :: "node \<Rightarrow> nat" where
  "textRun (NAtom a) = 1"
| "textRun (NSeq (NAtom a) b) = Suc (textRun b)"
| "textRun n = 0"

fun longestText :: "node \<Rightarrow> nat" where
  "longestText (NAtom a) = 1"
| "longestText (NSeq a b) = max (textRun (NSeq a b)) (max (longestText a) (longestText b))"
| "longestText (NAlt a b) = max (longestText a) (longestText b)"
| "longestText (NGroup g a) = longestText a"
| "longestText n = 0"

definition regexpTooLarge :: "platform \<Rightarrow> regexp \<Rightarrow> bool" where
  "regexpTooLarge P re = (regexpLimit P < longestText (pattern re))"

text \<open>\<open>s.match(re)\<close>: the pattern is compiled when it is first matched, which throws if
  it is too large for the engine; then the search.\<close>

definition match :: "platform \<Rightarrow> jsstring \<Rightarrow> regexp \<Rightarrow> exn + (nat \<Rightarrow> jsval) option" where
  "match P s re =
     (if regexpTooLarge P re then Inl SyntaxError else Inr (RegExp_exec P s re))"

text \<open>
  \<^verbatim>\<open>
  function escapeRegExp(s: string) {
    return s.replace(/[.*+?^${}()|[\]\\]/g, "\\$&")
  }
  \<close>
\<close>

definition escapeRegExp :: "jsstring \<Rightarrow> jsstring" where
  "escapeRegExp s =
     concat (map (\<lambda>c. if c = bsl \<or> c \<in> set (str ''.*+?^${}()|[]'') then [bsl, c] else [c]) s)"

section \<open>UTF-8 and UTF-16\<close>

text \<open>Bytes and code points are natural numbers, as code units are.\<close>

definition isHighSurrogate :: "cu \<Rightarrow> bool" where
  "isHighSurrogate c = (0xD800 \<le> c \<and> c \<le> 0xDBFF)"

definition isLowSurrogate :: "cu \<Rightarrow> bool" where
  "isLowSurrogate c = (0xDC00 \<le> c \<and> c \<le> 0xDFFF)"

text \<open>The code points of a string as a \<open>USVString\<close>: a surrogate pair is one code point,
  a surrogate without its partner becomes U+FFFD.\<close>

fun toCodePoints :: "jsstring \<Rightarrow> nat list" where
  "toCodePoints [] = []"
| "toCodePoints [c] = [if isHighSurrogate c \<or> isLowSurrogate c then 0xFFFD else c]"
| "toCodePoints (c # d # cs) =
     (if isHighSurrogate c \<and> isLowSurrogate d
      then (0x10000 + (c - 0xD800) * 0x400 + (d - 0xDC00)) # toCodePoints cs
      else (if isHighSurrogate c \<or> isLowSurrogate c then 0xFFFD else c)
           # toCodePoints (d # cs))"

definition utf16Encode :: "nat \<Rightarrow> jsstring" where
  "utf16Encode v =
     (if v < 0x10000 then [v]
      else [0xD800 + (v - 0x10000) div 0x400, 0xDC00 + (v - 0x10000) mod 0x400])"

definition utf8Encode :: "nat \<Rightarrow> nat list" where
  "utf8Encode v =
     (if v < 0x80 then [v]
      else if v < 0x800 then [0xC0 + v div 0x40, 0x80 + v mod 0x40]
      else if v < 0x10000 then [0xE0 + v div 0x1000, 0x80 + v div 0x40 mod 0x40, 0x80 + v mod 0x40]
      else [0xF0 + v div 0x40000, 0x80 + v div 0x1000 mod 0x40, 0x80 + v div 0x40 mod 0x40,
            0x80 + v mod 0x40])"

definition isCont :: "nat \<Rightarrow> bool" where
  "isCont b = (0x80 \<le> b \<and> b \<le> 0xBF)"

text \<open>The range of the second byte after a lead byte, which excludes overlong forms,
  surrogates and code points beyond U+10FFFF.\<close>

definition secondLow :: "nat \<Rightarrow> nat" where
  "secondLow b = (if b = 0xE0 then 0xA0 else if b = 0xF0 then 0x90 else 0x80)"

definition secondHigh :: "nat \<Rightarrow> nat" where
  "secondHigh b = (if b = 0xED then 0x9F else if b = 0xF4 then 0x8F else 0xBF)"

text \<open>The UTF-8 decoder of the WHATWG Encoding standard: an ill-formed sequence becomes
  U+FFFD and decoding resumes at the byte that broke it.\<close>

fun utf8DecodeLossy :: "nat list \<Rightarrow> nat list" where
  "utf8DecodeLossy [] = []"
| "utf8DecodeLossy (b # bs) =
     (if b < 0x80 then b # utf8DecodeLossy bs
      else if 0xC2 \<le> b \<and> b \<le> 0xDF then
        (case bs of
           [] \<Rightarrow> [0xFFFD]
         | b1 # r1 \<Rightarrow>
             if isCont b1 then ((b - 0xC0) * 0x40 + (b1 - 0x80)) # utf8DecodeLossy r1
             else 0xFFFD # utf8DecodeLossy bs)
      else if 0xE0 \<le> b \<and> b \<le> 0xEF then
        (case bs of
           [] \<Rightarrow> [0xFFFD]
         | b1 # r1 \<Rightarrow>
             if secondLow b \<le> b1 \<and> b1 \<le> secondHigh b then
               (case r1 of
                  [] \<Rightarrow> [0xFFFD]
                | b2 # r2 \<Rightarrow>
                    if isCont b2
                    then ((b - 0xE0) * 0x1000 + (b1 - 0x80) * 0x40 + (b2 - 0x80)) # utf8DecodeLossy r2
                    else 0xFFFD # utf8DecodeLossy r1)
             else 0xFFFD # utf8DecodeLossy bs)
      else if 0xF0 \<le> b \<and> b \<le> 0xF4 then
        (case bs of
           [] \<Rightarrow> [0xFFFD]
         | b1 # r1 \<Rightarrow>
             if secondLow b \<le> b1 \<and> b1 \<le> secondHigh b then
               (case r1 of
                  [] \<Rightarrow> [0xFFFD]
                | b2 # r2 \<Rightarrow>
                    if isCont b2 then
                      (case r2 of
                         [] \<Rightarrow> [0xFFFD]
                       | b3 # r3 \<Rightarrow>
                           if isCont b3
                           then ((b - 0xF0) * 0x40000 + (b1 - 0x80) * 0x1000 + (b2 - 0x80) * 0x40
                                 + (b3 - 0x80)) # utf8DecodeLossy r3
                           else 0xFFFD # utf8DecodeLossy r2)
                    else 0xFFFD # utf8DecodeLossy r1)
             else 0xFFFD # utf8DecodeLossy bs)
      else 0xFFFD # utf8DecodeLossy bs)"

section \<open>decodeURIComponent\<close>

text \<open>
  \<open>Decode\<close> of ECMAScript with no reserved characters. Every \<open>%\<close> must start an escape of
  two hexadecimal digits; an escaped byte below \<open>0x80\<close> is that character; an escaped
  lead byte must be followed by escapes of the bytes that complete one well-formed
  UTF-8 sequence. Anything else throws a \<open>URIError\<close>.
\<close>

datatype uitem = Lit cu | Oct nat

fun uriItems :: "jsstring \<Rightarrow> uitem list option" where
  "uriItems [] = Some []"
| "uriItems (c # cs) =
     (if c = ch CHR ''%'' then
        (case cs of
           h1 # h2 # rest \<Rightarrow>
             (case (radixDigit 16 h1, radixDigit 16 h2) of
                (Some a, Some b) \<Rightarrow> map_option ((#) (Oct (16 * a + b))) (uriItems rest)
              | _ \<Rightarrow> None)
         | _ \<Rightarrow> None)
      else map_option ((#) (Lit c)) (uriItems cs))"

fun uriDecode :: "uitem list \<Rightarrow> jsstring option" where
  "uriDecode [] = Some []"
| "uriDecode (Lit c # r) = map_option ((#) c) (uriDecode r)"
| "uriDecode (Oct b # r) =
     (if b < 0x80 then map_option ((#) b) (uriDecode r)
      else if 0xC2 \<le> b \<and> b \<le> 0xDF then
        (case r of
           Oct b1 # r1 \<Rightarrow>
             if isCont b1
             then map_option ((@) (utf16Encode ((b - 0xC0) * 0x40 + (b1 - 0x80)))) (uriDecode r1)
             else None
         | _ \<Rightarrow> None)
      else if 0xE0 \<le> b \<and> b \<le> 0xEF then
        (case r of
           Oct b1 # Oct b2 # r2 \<Rightarrow>
             if secondLow b \<le> b1 \<and> b1 \<le> secondHigh b \<and> isCont b2
             then map_option
                    ((@) (utf16Encode ((b - 0xE0) * 0x1000 + (b1 - 0x80) * 0x40 + (b2 - 0x80))))
                    (uriDecode r2)
             else None
         | _ \<Rightarrow> None)
      else if 0xF0 \<le> b \<and> b \<le> 0xF4 then
        (case r of
           Oct b1 # Oct b2 # Oct b3 # r3 \<Rightarrow>
             if secondLow b \<le> b1 \<and> b1 \<le> secondHigh b \<and> isCont b2 \<and> isCont b3
             then map_option
                    ((@) (utf16Encode ((b - 0xF0) * 0x40000 + (b1 - 0x80) * 0x1000
                                       + (b2 - 0x80) * 0x40 + (b3 - 0x80))))
                    (uriDecode r3)
             else None
         | _ \<Rightarrow> None)
      else None)"

definition decodeURIComponent :: "jsstring \<Rightarrow> exn + jsstring" where
  "decodeURIComponent s =
     (case uriItems s of
        None \<Rightarrow> Inl URIError
      | Some items \<Rightarrow> (case uriDecode items of None \<Rightarrow> Inl URIError | Some d \<Rightarrow> Inr d))"

text \<open>
  \<^verbatim>\<open>
  function decodeMaybe(s: string) {
    try {
      return decodeURIComponent(s)
    } catch {
      return s
    }
  }
  \<close>
\<close>

definition decodeMaybe :: "jsstring \<Rightarrow> jsstring" where
  "decodeMaybe s = (case decodeURIComponent s of Inr d \<Rightarrow> d | Inl e \<Rightarrow> s)"

section \<open>URLSearchParams\<close>

text \<open>
  The \<open>application/x-www-form-urlencoded\<close> parser of the WHATWG URL standard, on the
  UTF-8 bytes of the text: the pieces between \<open>&\<close>, the empty ones dropped, each split at
  its first \<open>=\<close>; in name and value \<open>+\<close> is a space, a \<open>%\<close> before two hexadecimal digits is
  the byte they write, and the bytes are decoded as UTF-8.
\<close>

fun splitBytes :: "nat \<Rightarrow> nat list \<Rightarrow> nat list list" where
  "splitBytes d [] = [[]]"
| "splitBytes d (b # bs) =
     (if b = d then [] # splitBytes d bs
      else (case splitBytes d bs of [] \<Rightarrow> [[b]] | p # ps \<Rightarrow> (b # p) # ps))"

definition hexByte :: "nat \<Rightarrow> nat option" where
  "hexByte b = (if b < 0x80 then radixDigit 16 b else None)"

fun percentDecode :: "nat list \<Rightarrow> nat list" where
  "percentDecode [] = []"
| "percentDecode (b # bs) =
     (if b = 0x25 then
        (case bs of
           h1 # h2 # rest \<Rightarrow>
             (case (hexByte h1, hexByte h2) of
                (Some x, Some y) \<Rightarrow> (16 * x + y) # percentDecode rest
              | _ \<Rightarrow> b # percentDecode bs)
         | _ \<Rightarrow> b # percentDecode bs)
      else b # percentDecode bs)"

definition formDecode :: "nat list \<Rightarrow> jsstring" where
  "formDecode bs =
     concat (map utf16Encode
       (utf8DecodeLossy (percentDecode (map (\<lambda>b. if b = 0x2B then 0x20 else b) bs))))"

definition urlencodedParse :: "jsstring \<Rightarrow> (jsstring \<times> jsstring) list" where
  "urlencodedParse s =
     map (\<lambda>piece. (formDecode (takeWhile (\<lambda>b. b \<noteq> 0x3D) piece),
                    formDecode (drop 1 (dropWhile (\<lambda>b. b \<noteq> 0x3D) piece))))
       (filter (\<lambda>piece. piece \<noteq> [])
          (splitBytes 0x26 (concat (map utf8Encode (toCodePoints s)))))"

text \<open>\<open>new URLSearchParams(init)\<close> for a string: one leading \<open>?\<close> is dropped.\<close>

definition URLSearchParams :: "jsstring \<Rightarrow> (jsstring \<times> jsstring) list" where
  "URLSearchParams init =
     urlencodedParse (case init of [] \<Rightarrow> [] | c # cs \<Rightarrow> if c = ch CHR ''?'' then cs else init)"

text \<open>\<open>params.get(name)\<close>: the name is converted to a \<open>USVString\<close>, so that a surrogate
  without its partner in it becomes U+FFFD; the result is the value of the first pair
  of that name, \<open>None\<close> for \<open>null\<close>.\<close>

definition toUSVString :: "jsstring \<Rightarrow> jsstring" where
  "toUSVString s = concat (map utf16Encode (toCodePoints s))"

definition searchParams_get :: "(jsstring \<times> jsstring) list \<Rightarrow> jsstring \<Rightarrow> jsstring option" where
  "searchParams_get params name = map_of params (toUSVString name)"

section \<open>The extractor\<close>

text \<open>\<open>a || b\<close>, \<open>x != null\<close>, and the text of a captured group where a string is
  expected (\<open>undefined\<close> would read as the text \<open>undefined\<close>).\<close>

definition truthy :: "jsval \<Rightarrow> bool" where
  "truthy v =
     (case v of
        Undefined \<Rightarrow> False
      | Null \<Rightarrow> False
      | Bool b \<Rightarrow> b
      | Num n \<Rightarrow> n \<noteq> NaN \<and> n \<noteq> Fin False 0 \<and> n \<noteq> Fin True 0
      | Str s \<Rightarrow> s \<noteq> []
      | _ \<Rightarrow> True)"

definition js_or :: "jsval \<Rightarrow> jsval \<Rightarrow> jsval" where
  "js_or a b = (if truthy a then a else b)"

definition notNullish :: "jsval \<Rightarrow> bool" where
  "notNullish v = (v \<noteq> Undefined \<and> v \<noteq> Null)"

definition groupText :: "jsval \<Rightarrow> jsstring" where
  "groupText v = (case v of Str s \<Rightarrow> s | _ \<Rightarrow> str ''undefined'')"

text \<open>
  \<^verbatim>\<open>
  function searchUrlLike(input: string, key: string): string | undefined {
    // Try full URL
    try {
      const u = new URL(input.trim())
      const val = u.searchParams.get(key)
      if (val !== null) return decodeMaybe(val)
    } catch {
      // Not a full URL, proceed
    }

    // Try treating as raw query string
    const raw = input.trim().replace(/^[?#]/, "")
    const qs = new URLSearchParams(raw)
    const val = qs.get(key)
    if (val !== null) return decodeMaybe(val)

    // Try splitting on common delimiters (&,;,, whitespace)
    // Matches key=value or key:value
    const re = new RegExp(`(?:^|[?&;,\\s])${escapeRegExp(key)}\\s*(?:=|:)\\s*
                           ("([^"]+)"|'([^']+)'|([^\\s&;,]+))`, "i")      (one line)
    const m = raw.match(re)
    if (m) {
      return decodeMaybe(m[2] || m[3] || m[4])
    }

    return undefined
  }
  \<close>
\<close>

definition urlSource :: "jsstring \<Rightarrow> jsstring" where
  \<open>urlSource k =
     str ''(?:^|[?&;,'' @ bsl # str ''s])'' @ k @ bsl # str ''s*(?:=|:)'' @ bsl
       # str ''s*("([^"]+)"|'([^']+)'|([^'' @ bsl # str ''s&;,]+))''\<close>

definition stripLeading :: "jsstring \<Rightarrow> jsstring" where
  "stripLeading s =
     (case s of [] \<Rightarrow> [] | c # cs \<Rightarrow> if c = ch CHR ''?'' \<or> c = ch CHR ''#'' then cs else s)"

definition searchUrlLike :: "platform \<Rightarrow> jsstring \<Rightarrow> jsstring \<Rightarrow> exn + jsval" where
  "searchUrlLike P input key =
     (case (case new_URL P (trim input) of
              Inl e \<Rightarrow> None
            | Inr query \<Rightarrow> searchParams_get (urlencodedParse query) key) of
        Some val \<Rightarrow> Inr (Str (decodeMaybe val))
      | None \<Rightarrow>
          (let raw = stripLeading (trim input);
               qs = URLSearchParams raw
           in case searchParams_get qs key of
                Some val \<Rightarrow> Inr (Str (decodeMaybe val))
              | None \<Rightarrow>
                  (case RegExp (urlSource (escapeRegExp key)) True of
                     Inl e \<Rightarrow> Inl e
                   | Inr re \<Rightarrow>
                       (case match P raw re of
                          Inl e \<Rightarrow> Inl e
                        | Inr m' \<Rightarrow>
                            (case m' of
                               Some m \<Rightarrow>
                                 Inr (Str (decodeMaybe (groupText (js_or (js_or (m 2) (m 3)) (m 4)))))
                             | None \<Rightarrow> Inr Undefined)))))"

text \<open>
  \<^verbatim>\<open>
  function searchJsonLike(input: string, key: string): string | number | boolean | null | undefined {
    // Try strict JSON first
    const parsed = tryParseJson(input)
    if (parsed !== undefined) {
      const val = key.includes(".")
        ? getByPath(parsed, key)
        : isObject(parsed)
          ? (parsed as Record<string, unknown>)[key]
          : undefined
      if (val !== undefined && typeof val !== "object") return val as string | number | boolean | null
    }

    // Try JSON-ish regex for "key": "value" | number | true/false | null
    const keyRe = escapeRegExp(key)
    const jsonishRe = new RegExp(`"${keyRe}"\\s*:\\s*
                        (?:"([^"]+)"|'([^']+)'|([\\-\\d.]+)|(true|false)|null)`, "i")   (one line)
    const m = input.match(jsonishRe)
    if (!m) return undefined
    if (m[1] != null) return m[1]
    if (m[2] != null) return m[2]
    if (m[3] != null) {
      const n = Number(m[3])
      return Number.isNaN(n) ? (m[3] as unknown as string) : n
    }
    if (m[4] != null) return m[4].toLowerCase() === "true"
    return null
  }
  \<close>
  The strict lookup (with the ternary expression of \<open>val\<close> as \<open>lookupParsed\<close>) and the
  regular-expression fallback are definitions of their own, composed as in the source.
\<close>

definition jsonishSource :: "jsstring \<Rightarrow> jsstring" where
  \<open>jsonishSource keyRe =
     str ''"'' @ keyRe @ str ''"'' @ bsl # str ''s*:'' @ bsl
       # str ''s*(?:"([^"]+)"|'([^']+)'|(['' @ bsl # str ''-'' @ bsl
       # str ''d.]+)|(true|false)|null)''\<close>

definition lookupParsed :: "jsval \<Rightarrow> jsstring \<Rightarrow> jsval" where
  "lookupParsed parsed key =
     (if ch CHR ''.'' \<in> set key then getByPath parsed key
      else if isObject parsed then getProperty parsed key
      else Undefined)"

definition strictLookup :: "jsstring \<Rightarrow> jsstring \<Rightarrow> jsval" where
  "strictLookup input key =
     (let parsed = tryParseJson input
      in if parsed \<noteq> Undefined then
           (let val = lookupParsed parsed key
            in if val \<noteq> Undefined \<and> typeof val \<noteq> ''object'' then val else Undefined)
         else Undefined)"

definition jsonishResult :: "platform \<Rightarrow> (nat \<Rightarrow> jsval) \<Rightarrow> jsval" where
  "jsonishResult P m =
     (if notNullish (m 1) then m 1
      else if notNullish (m 2) then m 2
      else if notNullish (m 3) then
        (let n = Number (groupText (m 3)) in if Number_isNaN n then m 3 else Num n)
      else if notNullish (m 4) then Bool (String_toLowerCase P (groupText (m 4)) = str ''true'')
      else Null)"

definition jsonishFallback :: "platform \<Rightarrow> jsstring \<Rightarrow> jsstring \<Rightarrow> exn + jsval" where
  "jsonishFallback P input key =
     (let keyRe = escapeRegExp key
      in case RegExp (jsonishSource keyRe) True of
           Inl e \<Rightarrow> Inl e
         | Inr jsonishRe \<Rightarrow>
             (case match P input jsonishRe of
                Inl e \<Rightarrow> Inl e
              | Inr m' \<Rightarrow>
                  (case m' of
                     None \<Rightarrow> Inr Undefined
                   | Some m \<Rightarrow> Inr (jsonishResult P m))))"

definition searchJsonLike :: "platform \<Rightarrow> jsstring \<Rightarrow> jsstring \<Rightarrow> exn + jsval" where
  "searchJsonLike P input key =
     (let val = strictLookup input key
      in if val \<noteq> Undefined then Inr val else jsonishFallback P input key)"

text \<open>
  \<^verbatim>\<open>
  function extractValue(input: string, key: string): string | number | boolean | null | undefined {
    if (!key.trim()) return undefined
    // 1) JSON and dot-paths
    const j = searchJsonLike(input, key)
    if (j !== undefined) return j

    // 2) URL / query-like patterns
    const u = searchUrlLike(input, key)
    if (u !== undefined) return u

    // 3) Generic key:value or key=value anywhere
    const generic = new RegExp(`(?:^|[\\s,;|])${escapeRegExp(key)}\\s*(?:=|:)\\s*
                                ("([^"]+)"|'([^']+)'|([^\\s,;|]+))`, "i")      (one line)
    const m = input.match(generic)
    if (m) return m[2] || m[3] || m[4]

    return undefined
  }
  \<close>
\<close>

definition genericSource :: "jsstring \<Rightarrow> jsstring" where
  \<open>genericSource k =
     str ''(?:^|['' @ bsl # str ''s,;|])'' @ k @ bsl # str ''s*(?:=|:)'' @ bsl
       # str ''s*("([^"]+)"|'([^']+)'|([^'' @ bsl # str ''s,;|]+))''\<close>

definition genericFallback :: "platform \<Rightarrow> jsstring \<Rightarrow> jsstring \<Rightarrow> exn + jsval" where
  "genericFallback P input key =
     (case RegExp (genericSource (escapeRegExp key)) True of
        Inl e \<Rightarrow> Inl e
      | Inr generic \<Rightarrow>
          (case match P input generic of
             Inl e \<Rightarrow> Inl e
           | Inr m' \<Rightarrow>
               (case m' of
                  Some m \<Rightarrow> Inr (js_or (js_or (m 2) (m 3)) (m 4))
                | None \<Rightarrow> Inr Undefined)))"

definition extractValue :: "platform \<Rightarrow> jsstring \<Rightarrow> jsstring \<Rightarrow> exn + jsval" where
  "extractValue P input key =
     (if trim key = [] then Inr Undefined
      else (case searchJsonLike P input key of
              Inl e \<Rightarrow> Inl e
            | Inr j \<Rightarrow>
                if j \<noteq> Undefined then Inr j
                else (case searchUrlLike P input key of
                        Inl e \<Rightarrow> Inl e
                      | Inr u \<Rightarrow>
                          if u \<noteq> Undefined then Inr u
                          else genericFallback P input key)))"

section \<open>The patterns of the three templates\<close>

text \<open>
  What the three template strings of the source denote once \<open>new RegExp\<close> has parsed
  them, for a key \<open>k\<close>: the key as a run of literal characters inside a fixed frame.
  That \<open>new RegExp\<close> does produce these patterns, for every key, is proved below.
\<close>

definition literal :: "jsstring \<Rightarrow> node \<Rightarrow> node" where
  "literal k tail = foldr (\<lambda>c. NSeq (NAtom (AChar c))) k tail"

definition quoted :: "cu \<Rightarrow> nat \<Rightarrow> node" where
  "quoted q g =
     NSeq (NAtom (AChar q))
       (NSeq (NGroup g (NSeq (NPlus (AClass True [CChar q])) NEmpty))
          (NSeq (NAtom (AChar q)) NEmpty))"

definition spaces :: node where
  "spaces = NStar (AClass False [CSpace])"

text \<open>\<open>(?:"([^"]+)"|'([^']+)'|([\-\d.]+)|(true|false)|null)\<close>\<close>

definition jsonishValue :: node where
  \<open>jsonishValue =
     NAlt (quoted (ch CHR ''"'') 1)
       (NAlt (quoted (ch CHR 0x27) 2)
          (NAlt (NSeq (NGroup 3
                         (NSeq (NPlus (AClass False [CChar (ch CHR ''-''), CDigit, CChar (ch CHR ''.'')]))
                            NEmpty))
                   NEmpty)
             (NAlt (NSeq (NGroup 4
                            (NAlt (literal (str ''true'') NEmpty) (literal (str ''false'') NEmpty)))
                      NEmpty)
                (literal (str ''null'') NEmpty))))\<close>

text \<open>\<open>"k"\s*:\s*\<close> and the value alternatives.\<close>

definition jsonishPattern :: "jsstring \<Rightarrow> node" where
  \<open>jsonishPattern k =
     NSeq (NAtom (AChar (ch CHR ''"'')))
       (literal k
          (NSeq (NAtom (AChar (ch CHR ''"'')))
             (NSeq spaces
                (NSeq (NAtom (AChar (ch CHR '':'')))
                   (NSeq spaces (NSeq jsonishValue NEmpty))))))\<close>

text \<open>\<open>(?:^|[before])k\s*(?:=|:)\s*("([^"]+)"|'([^']+)'|([^stop]+))\<close>\<close>

definition delimited :: "citem list \<Rightarrow> citem list \<Rightarrow> jsstring \<Rightarrow> node" where
  \<open>delimited before stop k =
     NSeq (NAlt (NSeq NBol NEmpty) (NSeq (NAtom (AClass False before)) NEmpty))
       (literal k
          (NSeq spaces
             (NSeq (NAlt (NSeq (NAtom (AChar (ch CHR ''=''))) NEmpty)
                         (NSeq (NAtom (AChar (ch CHR '':''))) NEmpty))
                (NSeq spaces
                   (NSeq (NGroup 1
                            (NAlt (quoted (ch CHR ''"'') 2)
                               (NAlt (quoted (ch CHR 0x27) 3)
                                  (NSeq (NGroup 4 (NSeq (NPlus (AClass True stop)) NEmpty))
                                     NEmpty))))
                      NEmpty)))))\<close>

definition urlPattern :: "jsstring \<Rightarrow> node" where
  "urlPattern k =
     delimited [CChar (ch CHR ''?''), CChar (ch CHR ''&''), CChar (ch CHR '';''), CChar (ch CHR '',''), CSpace]
       [CSpace, CChar (ch CHR ''&''), CChar (ch CHR '';''), CChar (ch CHR '','')] k"

definition genericPattern :: "jsstring \<Rightarrow> node" where
  "genericPattern k =
     delimited [CSpace, CChar (ch CHR '',''), CChar (ch CHR '';''), CChar (ch CHR ''|'')]
       [CSpace, CChar (ch CHR '',''), CChar (ch CHR '';''), CChar (ch CHR ''|'')] k"

section \<open>First match, in the words of the specification\<close>

text \<open>
  ``First match in the text wins'': of the positions of the text at which the pattern
  matches, the least, and there the first way the pattern matches.
\<close>

definition matchesAt :: "platform \<Rightarrow> regexp \<Rightarrow> jsstring \<Rightarrow> nat \<Rightarrow> mstate list" where
  "matchesAt P re s i =
     matchNode P (ignoreCase re) (pattern re) \<lparr>ahead = drop i s, index = i, captures = []\<rparr>"

definition firstMatch :: "platform \<Rightarrow> regexp \<Rightarrow> jsstring \<Rightarrow> mstate option" where
  "firstMatch P re s =
     (case filter (\<lambda>i. matchesAt P re s i \<noteq> []) [0..<Suc (length s)] of
        [] \<Rightarrow> None
      | i # _ \<Rightarrow> Some (hd (matchesAt P re s i)))"

definition groupsOf :: "mstate \<Rightarrow> nat \<Rightarrow> jsval" where
  "groupsOf st g = (case map_of (captures st) g of None \<Rightarrow> Undefined | Some x \<Rightarrow> Str x)"

text \<open>The characters of a numeric literal of the JSON-ish pattern: digits, \<open>.\<close> and
  \<open>-\<close>.\<close>

definition isNumericChar :: "cu \<Rightarrow> bool" where
  "isNumericChar c = (isDigit c \<or> c = ch CHR ''.'' \<or> c = ch CHR ''-'')"

text \<open>The text \<open>s\<close> contains \<open>p\<close> as a run of consecutive characters.\<close>

definition contains :: "jsstring \<Rightarrow> jsstring \<Rightarrow> bool" where
  "contains s p = list_ex (\<lambda>i. take (length p) (drop i s) = p) [0..<Suc (length s)]"

section \<open>The resolver in the words of the specification\<close>



section \<open>A platform for closed examples\<close>

text \<open>
  The examples below that do not hold for every platform are stated for this one. Its
  URL parser accepts the URLs that consist of \<open>https://example.com/?\<close> and a query of
  letters, digits and \<open>% & = + . -\<close>, which the URL parser leaves as they are, and rejects
  every other text (none of the other examples is a URL); its case conversions leave
  text outside ASCII unchanged; its regular-expression limit is that of V8.
\<close>

definition isQueryChar :: "cu \<Rightarrow> bool" where
  "isQueryChar c =
     (isDigit c \<or> (0x41 \<le> c \<and> c \<le> 0x5A) \<or> (0x61 \<le> c \<and> c \<le> 0x7A)
      \<or> c \<in> set (str ''%&=+.-''))"

definition examplePlatform :: platform where
  "examplePlatform =
     \<lparr>new_URL = (\<lambda>s. if take 21 s = str ''https://example.com/?'' \<and> list_all isQueryChar (drop 21 s)
                       then Inr (drop 21 s)
                     else Inl TypeError),
      toUpperCase = (\<lambda>s. s),
      toLowerCase = (\<lambda>s. s),
      regexpLimit = 32767\<rparr>"

section \<open>Numbers: small integers are exact\<close>

lemma roundHalfEven_of_int: "roundHalfEven (of_int k) = k"
  by (simp add: roundHalfEven_def Let_def)

lemma binade_of_int:
  assumes "0 < n"
  shows "binade (of_int n) = bitlen n - 1"
proof -
  have b: "2 ^ nat (bitlen n - 1) \<le> n" using bitlen_bounds[OF assms] by simp
  have pos: "0 < bitlen n"
    using assms bitlen_eq_zero_iff[of n] bitlen_nonneg[of n] by linarith
  have "(2::rat) powi (bitlen n - 1) = of_int (2 ^ nat (bitlen n - 1))"
    using pos by (simp add: power_int_def)
  also have "\<dots> \<le> of_int n" using b by (simp only: of_int_le_iff)
  finally have le: "(2::rat) powi (bitlen n - 1) \<le> of_int n" .
  have one: "bitlen 1 = 1" by (simp add: bitlen_alt_def)
  show ?thesis using le by (simp add: binade_def Let_def one)
qed

lemma toDouble_small_int:
  assumes "0 \<le> n" "n < 2 ^ 53"
  shows "toDouble neg (of_int n) = Fin neg (of_int n)"
proof (cases "n = 0")
  case True
  then show ?thesis by (simp add: toDouble_def)
next
  case False
  then have pos: "0 < n" using assms by simp
  define e where "e = bitlen n - 1"
  have e0: "0 \<le> e"
    using pos bitlen_eq_zero_iff[of n] bitlen_nonneg[of n] unfolding e_def by linarith
  have "2 ^ nat e \<le> n" using bitlen_bounds[OF pos] by (simp add: e_def)
  then have lt: "(2::int) ^ nat e < 2 ^ 53" using assms by linarith
  have e52: "e \<le> 52"
  proof (rule ccontr)
    assume "\<not> e \<le> 52"
    then have "53 \<le> nat e" by simp
    then have "(2::int) ^ 53 \<le> 2 ^ nat e" by (intro power_increasing) simp_all
    with lt show False by linarith
  qed
  have mx: "max e (- 1022) = e" using e0 by simp
  have q: "(2::rat) powi (e - 52) = 1 / of_int (2 ^ nat (52 - e))"
    using e52 by (simp add: power_int_def field_simps)
  have rq: "(of_int n :: rat) / 2 powi (e - 52) = of_int (n * 2 ^ nat (52 - e))"
    unfolding q by simp
  have v: "of_int (roundHalfEven (of_int n / 2 powi (e - 52))) * 2 powi (e - 52) = (of_int n :: rat)"
    unfolding rq roundHalfEven_of_int unfolding q by simp
  have "(of_int n :: rat) < 2 ^ 1024"
  proof -
    have "n < 2 ^ 1024" using assms(2) by (rule less_trans) simp
    then have "(of_int n :: rat) < of_int (2 ^ 1024)" by (simp only: of_int_less_iff)
    then show ?thesis by simp
  qed
  then show ?thesis
    using False by (simp add: toDouble_def Let_def binade_of_int[OF pos] e_def[symmetric] mx v)
qed

text \<open>Evaluation takes the exact case first; the general rounding is expensive.\<close>

lemma toDouble_code [code]:
  "toDouble neg r =
     (if r = of_int \<lfloor>r\<rfloor> \<and> 0 \<le> r \<and> r < 9007199254740992 then Fin neg r
      else if r = 0 then Fin neg 0
      else (let e = max (binade r) (- 1022);
                q = 2 powi (e - 52);
                v = of_int (roundHalfEven (r / q)) * q
            in if 2 ^ 1024 \<le> v then Inf neg else Fin neg v))"
proof (cases "r = of_int \<lfloor>r\<rfloor> \<and> 0 \<le> r \<and> r < 9007199254740992")
  case True
  then have r: "r = of_int \<lfloor>r\<rfloor>" and "0 \<le> \<lfloor>r\<rfloor>" and "\<lfloor>r\<rfloor> < 2 ^ 53"
    by (simp_all add: floor_less_iff)
  then show ?thesis using True toDouble_small_int[of "\<lfloor>r\<rfloor>" neg] by simp
next
  case False
  show ?thesis unfolding toDouble_def using False by (simp only: if_False)
qed

section \<open>Path resolution\<close>









section \<open>The templates always parse\<close>

text \<open>
  \<open>escapeRegExp\<close> escapes exactly the syntax characters, so the scanner reads an escaped
  key as the key's characters, each a literal, and the parser puts them in sequence.
\<close>

lemma escapeRegExp_Cons:
  "escapeRegExp (c # s) = (if isSyntaxChar c then [bsl, c] else [c]) @ escapeRegExp s"
  by (auto simp: escapeRegExp_def isSyntaxChar_def str_def)

lemma escapeRegExp_Nil: "escapeRegExp [] = []"
  by (simp add: escapeRegExp_def)

lemma re_lex_plain:
  "\<not> isSyntaxChar c \<Longrightarrow> re_lex RTop (c # cs) = rcons (RAtom (AChar c)) (re_lex RTop cs)"
  by (auto simp: isSyntaxChar_def str_def bsl_def)

lemma re_lex_escape:
  "isSyntaxChar c \<Longrightarrow> re_lex RTop (bsl # c # cs) = rcons (RAtom (AChar c)) (re_lex RTop cs)"
  by (auto simp: isSyntaxChar_def str_def bsl_def escapeAtom_def)

lemma re_lex_escaped:
  "re_lex RTop (escapeRegExp k @ rest) =
     (case re_lex RTop rest of
        Inl e \<Rightarrow> Inl e
      | Inr ts \<Rightarrow> Inr (map (\<lambda>c. RAtom (AChar c)) k @ ts))"
proof (induction k)
  case Nil
  then show ?case by (simp add: escapeRegExp_Nil split: sum.splits)
next
  case (Cons c k)
  show ?case
  proof (cases "isSyntaxChar c")
    case True
    then show ?thesis
      using Cons.IH re_lex_escape[OF True, of "escapeRegExp k @ rest"]
      by (simp add: escapeRegExp_Cons rcons_def split: sum.splits)
  next
    case False
    then show ?thesis
      using Cons.IH re_lex_plain[OF False, of "escapeRegExp k @ rest"]
      by (simp add: escapeRegExp_Cons rcons_def split: sum.splits)
  qed
qed

lemma re_parse_literal:
  "re_parse (n, RFrame cap alts terms, outer) (map (\<lambda>c. RAtom (AChar c)) k @ ts) =
   re_parse (n, RFrame cap alts (rev (map (\<lambda>c. NAtom (AChar c)) k) @ terms), outer) ts"
  by (induction k arbitrary: terms) (simp_all add: re_step_def pushTerm_def)

lemma group_numbers:
  "Suc (Suc 0) = 2" "Suc (Suc (Suc 0)) = 3" "Suc (Suc (Suc (Suc 0))) = 4"
  by simp_all

lemmas re_eval =
  str_def bsl_def re_lex_escaped isSyntaxChar_def escapeAtom_def classEscape_def rcons_def
  re_parse_literal re_step_def pushTerm_def quantify_def closeFrame_def mkSeq_def
  quoted_def spaces_def literal_def foldr_map comp_def RegExp_def group_numbers

lemma RegExp_jsonish:
  "RegExp (jsonishSource (escapeRegExp key)) True =
     Inr \<lparr>pattern = jsonishPattern key, ignoreCase = True\<rparr>"
  by (simp add: jsonishSource_def jsonishPattern_def jsonishValue_def re_eval)

lemma RegExp_url:
  "RegExp (urlSource (escapeRegExp key)) True =
     Inr \<lparr>pattern = urlPattern key, ignoreCase = True\<rparr>"
  by (simp add: urlSource_def urlPattern_def delimited_def re_eval)

lemma RegExp_generic:
  "RegExp (genericSource (escapeRegExp key)) True =
     Inr \<lparr>pattern = genericPattern key, ignoreCase = True\<rparr>"
  by (simp add: genericSource_def genericPattern_def delimited_def re_eval)

section \<open>How the matcher matches\<close>

text \<open>
  The states a pattern can reach from a state, described by what was consumed: these
  turn a question about the list of backtracking alternatives into one about the text.
\<close>

lemma asciiUpper_range:
  "0x61 \<le> c \<Longrightarrow> c \<le> 0x7A \<Longrightarrow> 0x41 \<le> c - 0x20 \<and> c - 0x20 \<le> (0x5A :: cu)"
  by arith

lemma Canonicalize_plain:
  "c < 0x80 \<Longrightarrow> \<not> (0x61 \<le> c \<and> c \<le> 0x7A) \<Longrightarrow> Canonicalize P i c = c"
  by (auto simp: Canonicalize_def asciiUpper_def)

lemma Canonicalize_eq_plain:
  assumes "Canonicalize P i c = d" "d < 0x80" "\<not> (0x41 \<le> d \<and> d \<le> 0x5A)"
  shows "c = d"
proof (cases "i \<and> c < 0x80")
  case True
  show ?thesis
  proof (cases "0x61 \<le> c \<and> c \<le> 0x7A")
    case True
    then have "0x41 \<le> c - 0x20 \<and> c - 0x20 \<le> 0x5A" using asciiUpper_range by blast
    moreover have "d = c - 0x20" using assms(1) True \<open>i \<and> c < 0x80\<close>
      by (simp add: Canonicalize_def asciiUpper_def)
    ultimately show ?thesis using assms(3) by simp
  next
    case False
    then show ?thesis using assms(1) True by (auto simp: Canonicalize_def asciiUpper_def)
  qed
next
  case False
  then show ?thesis using assms(1,2)
    by (auto simp: Canonicalize_def Let_def split: if_splits)
qed

lemma in_repeatAtom:
  "(r, m) \<in> set (repeatAtom p s n) \<longleftrightarrow> (\<exists>run. s = run @ r \<and> list_all p run \<and> m = n + length run)"
proof (induction s arbitrary: n)
  case Nil
  then show ?case by auto
next
  case (Cons c cs)
  show ?case
  proof (cases "p c")
    case True
    then show ?thesis
      using Cons.IH[of "Suc n"] by (auto simp: Cons_eq_append_conv)
  next
    case False
    then show ?thesis by (auto simp: Cons_eq_append_conv)
  qed
qed

lemma in_map_pair:
  "x \<in> set (map (\<lambda>(r, n). f r n) xs) \<longleftrightarrow> (\<exists>r n. (r, n) \<in> set xs \<and> x = f r n)"
  by (induction xs) auto

lemma in_matchNode_Atom:
  "st' \<in> set (matchNode P i (NAtom a) st) \<longleftrightarrow>
     (\<exists>c cs. ahead st = c # cs \<and> atomMatches P i a c \<and> st' = st\<lparr>ahead := cs, index := Suc (index st)\<rparr>)"
  by (cases "ahead st") auto

lemma in_matchNode_Star:
  "st' \<in> set (matchNode P i (NStar a) st) \<longleftrightarrow>
     (\<exists>run r. ahead st = run @ r \<and> list_all (atomMatches P i a) run
        \<and> st' = st\<lparr>ahead := r, index := index st + length run\<rparr>)"
proof -
  have "st' \<in> set (matchNode P i (NStar a) st) \<longleftrightarrow>
      (\<exists>r m. (r, m) \<in> set (repeatAtom (atomMatches P i a) (ahead st) (index st))
         \<and> st' = st\<lparr>ahead := r, index := m\<rparr>)"
    by (simp only: matchNode.simps in_map_pair)
  then show ?thesis unfolding in_repeatAtom by blast
qed

lemma in_matchNode_Plus:
  "st' \<in> set (matchNode P i (NPlus a) st) \<longleftrightarrow>
     (\<exists>run r. run \<noteq> [] \<and> ahead st = run @ r \<and> list_all (atomMatches P i a) run
        \<and> st' = st\<lparr>ahead := r, index := index st + length run\<rparr>)"
proof (cases "ahead st")
  case Nil
  then show ?thesis by auto
next
  case (Cons c cs)
  show ?thesis
  proof (cases "atomMatches P i a c")
    case True
    show ?thesis
    proof
      assume "st' \<in> set (matchNode P i (NPlus a) st)"
      then have "st' \<in> set (map (\<lambda>(r, n). st\<lparr>ahead := r, index := n\<rparr>)
                 (repeatAtom (atomMatches P i a) cs (Suc (index st))))"
        using Cons True by simp
      then obtain r m where rm: "(r, m) \<in> set (repeatAtom (atomMatches P i a) cs (Suc (index st)))"
        and st': "st' = st\<lparr>ahead := r, index := m\<rparr>"
        unfolding in_map_pair by blast
      from rm obtain run where "cs = run @ r" "list_all (atomMatches P i a) run" "m = Suc (index st) + length run"
        unfolding in_repeatAtom by blast
      then have "c # run \<noteq> [] \<and> ahead st = (c # run) @ r \<and> list_all (atomMatches P i a) (c # run)
          \<and> st' = st\<lparr>ahead := r, index := index st + length (c # run)\<rparr>"
        using Cons True st' by simp
      then show "\<exists>run r. run \<noteq> [] \<and> ahead st = run @ r \<and> list_all (atomMatches P i a) run
        \<and> st' = st\<lparr>ahead := r, index := index st + length run\<rparr>" by blast
    next
      assume "\<exists>run r. run \<noteq> [] \<and> ahead st = run @ r \<and> list_all (atomMatches P i a) run
        \<and> st' = st\<lparr>ahead := r, index := index st + length run\<rparr>"
      then obtain run r where run: "run \<noteq> []" "ahead st = run @ r" "list_all (atomMatches P i a) run"
        "st' = st\<lparr>ahead := r, index := index st + length run\<rparr>" by blast
      then obtain run' where r': "run = c # run'" using Cons by (cases run) auto
      then have "(r, Suc (index st) + length run') \<in> set (repeatAtom (atomMatches P i a) cs (Suc (index st)))"
        unfolding in_repeatAtom using run Cons by auto
      then have "st' \<in> set (map (\<lambda>(r, n). st\<lparr>ahead := r, index := n\<rparr>)
                 (repeatAtom (atomMatches P i a) cs (Suc (index st))))"
        unfolding in_map_pair using run(4) r' by auto
      then show "st' \<in> set (matchNode P i (NPlus a) st)"
        using Cons True by simp
    qed
  next
    case False
    then show ?thesis using Cons by (auto simp: neq_Nil_conv)
  qed
qed

lemma in_matchNode_Seq:
  "st' \<in> set (matchNode P i (NSeq a b) st) \<longleftrightarrow>
     (\<exists>st1 \<in> set (matchNode P i a st). st' \<in> set (matchNode P i b st1))"
  by auto

lemma in_matchNode_Alt:
  "st' \<in> set (matchNode P i (NAlt a b) st) \<longleftrightarrow>
     st' \<in> set (matchNode P i a st) \<or> st' \<in> set (matchNode P i b st)"
  by auto

lemma in_matchNode_Group:
  "st' \<in> set (matchNode P i (NGroup g a) st) \<longleftrightarrow>
     (\<exists>st1 \<in> set (matchNode P i a st).
        st' = st1\<lparr>captures := (g, take (index st1 - index st) (ahead st)) # captures st1\<rparr>)"
  by auto

lemma in_matchNode_Empty: "st' \<in> set (matchNode P i NEmpty st) \<longleftrightarrow> st' = st"
  by auto

lemma in_matchNode_Bol:
  "st' \<in> set (matchNode P i NBol st) \<longleftrightarrow> index st = 0 \<and> st' = st"
  by auto

lemma in_matchNode_literal:
  "st' \<in> set (matchNode P i (literal k tail) st) \<longleftrightarrow>
     (\<exists>k' r. ahead st = k' @ r \<and> map (Canonicalize P i) k' = map (Canonicalize P i) k
        \<and> st' \<in> set (matchNode P i tail (st\<lparr>ahead := r, index := index st + length k\<rparr>)))"
proof (induction k arbitrary: st)
  case Nil
  then show ?case by (simp add: literal_def)
next
  case (Cons c k)
  have lit: "literal (c # k) tail = NSeq (NAtom (AChar c)) (literal k tail)"
    by (simp add: literal_def)
  show ?case
  proof
    assume "st' \<in> set (matchNode P i (literal (c # k) tail) st)"
    then obtain d ds where d: "ahead st = d # ds" "Canonicalize P i c = Canonicalize P i d"
      and in1: "st' \<in> set (matchNode P i (literal k tail) (st\<lparr>ahead := ds, index := Suc (index st)\<rparr>))"
      unfolding lit in_matchNode_Seq Bex_def in_matchNode_Atom atomMatches_def by (simp only: atom.case) blast
    from in1 obtain k' r where k': "ds = k' @ r" "map (Canonicalize P i) k' = map (Canonicalize P i) k"
      and in2: "st' \<in> set (matchNode P i tail (st\<lparr>ahead := r, index := Suc (index st) + length k\<rparr>))"
      unfolding Cons.IH by auto
    have "ahead st = (d # k') @ r \<and> map (Canonicalize P i) (d # k') = map (Canonicalize P i) (c # k)
        \<and> st' \<in> set (matchNode P i tail (st\<lparr>ahead := r, index := index st + length (c # k)\<rparr>))"
      using d k' in2 by simp
    then show "\<exists>k' r. ahead st = k' @ r \<and> map (Canonicalize P i) k' = map (Canonicalize P i) (c # k)
        \<and> st' \<in> set (matchNode P i tail (st\<lparr>ahead := r, index := index st + length (c # k)\<rparr>))"
      by blast
  next
    assume "\<exists>k' r. ahead st = k' @ r \<and> map (Canonicalize P i) k' = map (Canonicalize P i) (c # k)
        \<and> st' \<in> set (matchNode P i tail (st\<lparr>ahead := r, index := index st + length (c # k)\<rparr>))"
    then obtain k' r where k': "ahead st = k' @ r" "map (Canonicalize P i) k' = map (Canonicalize P i) (c # k)"
      and in2: "st' \<in> set (matchNode P i tail (st\<lparr>ahead := r, index := index st + length (c # k)\<rparr>))"
      by blast
    from k'(2) obtain d k'' where dk: "k' = d # k''" "Canonicalize P i d = Canonicalize P i c"
      "map (Canonicalize P i) k'' = map (Canonicalize P i) k" by (cases k') auto
    have "st' \<in> set (matchNode P i (literal k tail) (st\<lparr>ahead := k'' @ r, index := Suc (index st)\<rparr>))"
      unfolding Cons.IH using dk(3) in2 by auto
    then show "st' \<in> set (matchNode P i (literal (c # k) tail) st)"
      unfolding lit in_matchNode_Seq Bex_def in_matchNode_Atom using k'(1) dk by (auto simp: atomMatches_def)
  qed
qed

section \<open>The first match is the leftmost\<close>

lemma searchFrom_filter:
  "n \<le> length s \<Longrightarrow>
   searchFrom P re (drop n s) n =
     (case filter (\<lambda>i. matchesAt P re s i \<noteq> []) [n..<Suc (length s)] of
        [] \<Rightarrow> None
      | i # _ \<Rightarrow> Some (hd (matchesAt P re s i)))"
proof (induction "length s - n" arbitrary: n)
  case 0
  then have n: "n = length s" by simp
  then have "[n..<Suc (length s)] = [n]" by simp
  then show ?case using n by (simp add: matchesAt_def split: list.splits)
next
  case (Suc k)
  then have lt: "n < length s" by simp
  then obtain c cs where d: "drop n s = c # cs" by (cases "drop n s") auto
  then have cs: "cs = drop (Suc n) s" by (metis drop_Suc tl_drop list.sel(3))
  have upt: "[n..<Suc (length s)] = n # [Suc n..<Suc (length s)]"
    using lt by (simp add: upt_conv_Cons)
  have IH: "searchFrom P re (drop (Suc n) s) (Suc n) =
     (case filter (\<lambda>i. matchesAt P re s i \<noteq> []) [Suc n..<Suc (length s)] of
        [] \<Rightarrow> None
      | i # _ \<Rightarrow> Some (hd (matchesAt P re s i)))"
    using Suc.hyps(1)[of "Suc n"] Suc.hyps(2) lt by simp
  show ?case
  proof (cases "matchesAt P re s n")
    case Nil
    then show ?thesis
      unfolding upt using IH d cs by (simp add: matchesAt_def)
  next
    case (Cons st sts)
    then show ?thesis
      unfolding upt using d by (simp add: matchesAt_def)
  qed
qed

lemma searchFrom_firstMatch: "searchFrom P re s 0 = firstMatch P re s"
  using searchFrom_filter[of 0 s P re] by (simp add: firstMatch_def)

lemma exec_firstMatch:
  "RegExp_exec P s re = (case firstMatch P re s of None \<Rightarrow> None | Some st \<Rightarrow> Some (groupsOf st))"
  by (auto simp: RegExp_exec_def searchFrom_firstMatch groupsOf_def fun_eq_iff split: option.splits)

lemma firstMatch_Some:
  assumes "firstMatch P re s = Some st"
  shows "\<exists>i. i \<le> length s \<and> st \<in> set (matchesAt P re s i)
            \<and> st = hd (matchesAt P re s i) \<and> (\<forall>j<i. matchesAt P re s j = [])"
proof -
  let ?f = "\<lambda>i. matchesAt P re s i \<noteq> []"
  from assms obtain i more where f: "filter ?f [0..<Suc (length s)] = i # more"
    and st: "st = hd (matchesAt P re s i)"
    by (auto simp: firstMatch_def split: list.splits)
  from f have "i \<in> set (filter ?f [0..<Suc (length s)])" by simp
  then have i: "i \<le> length s" "matchesAt P re s i \<noteq> []" by (auto simp del: upt_Suc)
  have "\<forall>j<i. matchesAt P re s j = []"
  proof (intro allI impI)
    fix j assume "j < i"
    show "matchesAt P re s j = []"
    proof (rule ccontr)
      assume "matchesAt P re s j \<noteq> []"
      then have "j \<in> set (i # more)"
        unfolding f[symmetric] using \<open>j < i\<close> i(1) by (simp del: upt_Suc)
      moreover have "sorted (i # more)"
        unfolding f[symmetric] by (simp add: sorted_wrt_filter del: upt_Suc)
      ultimately have "i \<le> j" by auto
      then show False using \<open>j < i\<close> by simp
    qed
  qed
  then show ?thesis using i st by (auto intro!: exI[of _ i])
qed

lemma exec_groups:
  "RegExp_exec P s re = Some m \<Longrightarrow> m g = Undefined \<or> (\<exists>x. m g = Str x)"
  by (auto simp: RegExp_exec_def split: option.splits)

section \<open>The size of the templates' patterns\<close>

text \<open>
  The longest run of literal text in each of the three patterns is the key, with its
  two quotes in the JSON-ish pattern; the frame around it has runs of at most five
  characters (\<open>false\<close>).
\<close>

lemma textRun_le_longestText: "textRun n \<le> longestText n"
  by (induction n rule: textRun.induct) simp_all

lemma textRun_literal: "textRun (literal k tail) = length k + textRun tail"
  by (induction k) (simp_all add: literal_def)

lemma longestText_literal:
  "longestText (literal k tail) = max (length k + textRun tail) (longestText tail)"
proof (induction k)
  case Nil
  then show ?case using textRun_le_longestText[of tail] by (simp add: literal_def)
next
  case (Cons c k)
  have lit: "literal (c # k) tail = NSeq (NAtom (AChar c)) (literal k tail)"
    by (simp add: literal_def)
  show ?case unfolding lit using Cons.IH by (simp add: textRun_literal)
qed

lemma longestText_jsonishPattern: "longestText (jsonishPattern key) = max (length key + 2) 5"
  by (simp add: jsonishPattern_def jsonishValue_def quoted_def spaces_def longestText_literal
      textRun_literal str_def)

lemma longestText_delimited: "longestText (delimited before stop key) = max (length key) 1"
  by (simp add: delimited_def quoted_def spaces_def longestText_literal textRun_literal)

lemma longestText_urlPattern: "longestText (urlPattern key) = max (length key) 1"
  by (simp add: urlPattern_def longestText_delimited)

lemma longestText_genericPattern: "longestText (genericPattern key) = max (length key) 1"
  by (simp add: genericPattern_def longestText_delimited)

section \<open>When the strategies throw\<close>

text \<open>
  \<open>new RegExp\<close> does not throw, whatever the key; \<open>match\<close> throws when the key is too long
  for the engine, and only then.
\<close>

lemma jsonishFallback_eq:
  "jsonishFallback P input key =
     (if regexpLimit P < max (length key + 2) 5 then Inl SyntaxError
      else (case RegExp_exec P input \<lparr>pattern = jsonishPattern key, ignoreCase = True\<rparr> of
              None \<Rightarrow> Inr Undefined
            | Some m \<Rightarrow> Inr (jsonishResult P m)))"
  by (simp add: jsonishFallback_def RegExp_jsonish Let_def match_def regexpTooLarge_def
      longestText_jsonishPattern)

lemma genericFallback_eq:
  "genericFallback P input key =
     (if regexpLimit P < max (length key) 1 then Inl SyntaxError
      else (case RegExp_exec P input \<lparr>pattern = genericPattern key, ignoreCase = True\<rparr> of
              Some m \<Rightarrow> Inr (js_or (js_or (m 2) (m 3)) (m 4))
            | None \<Rightarrow> Inr Undefined))"
  by (simp add: genericFallback_def RegExp_generic match_def regexpTooLarge_def
      longestText_genericPattern)

lemma searchUrlLike_eq:
  "searchUrlLike P input key =
     (case (case new_URL P (trim input) of
              Inl e \<Rightarrow> None
            | Inr query \<Rightarrow> searchParams_get (urlencodedParse query) key) of
        Some val \<Rightarrow> Inr (Str (decodeMaybe val))
      | None \<Rightarrow>
          (case searchParams_get (URLSearchParams (stripLeading (trim input))) key of
             Some val \<Rightarrow> Inr (Str (decodeMaybe val))
           | None \<Rightarrow>
               if regexpLimit P < max (length key) 1 then Inl SyntaxError
               else (case RegExp_exec P (stripLeading (trim input)) \<lparr>pattern = urlPattern key, ignoreCase = True\<rparr> of
                       Some m \<Rightarrow> Inr (Str (decodeMaybe (groupText (js_or (js_or (m 2) (m 3)) (m 4)))))
                     | None \<Rightarrow> Inr Undefined)))"
  by (simp add: searchUrlLike_def RegExp_url Let_def match_def regexpTooLarge_def
      longestText_urlPattern split: option.splits sum.splits)

lemma jsonishFallback_total:
  "max (length key + 2) 5 \<le> regexpLimit P \<Longrightarrow> \<exists>v. jsonishFallback P input key = Inr v"
  by (simp add: jsonishFallback_eq not_less split: option.splits)

lemma genericFallback_total:
  "max (length key) 1 \<le> regexpLimit P \<Longrightarrow> \<exists>v. genericFallback P input key = Inr v"
  by (simp add: genericFallback_eq not_less split: option.splits)

lemma searchUrlLike_total:
  "max (length key) 1 \<le> regexpLimit P \<Longrightarrow> \<exists>v. searchUrlLike P input key = Inr v"
  by (simp add: searchUrlLike_eq not_less split: option.splits sum.splits)

lemma searchJsonLike_total:
  "max (length key + 2) 5 \<le> regexpLimit P \<Longrightarrow> \<exists>v. searchJsonLike P input key = Inr v"
  using jsonishFallback_total[of key P input] by (simp add: searchJsonLike_def Let_def)

lemma extractValue_total:
  assumes "max (length key + 2) 5 \<le> regexpLimit P"
  shows "\<exists>v. extractValue P input key = Inr v"
proof -
  have "max (length key) 1 \<le> regexpLimit P" using assms by simp
  then show ?thesis
    using searchJsonLike_total[OF assms, of input] searchUrlLike_total[of key P input]
      genericFallback_total[of key P input]
    by (auto simp: extractValue_def)
qed

lemma jsonishFallback_throws:
  assumes "regexpLimit P < length key + 2"
  shows "jsonishFallback P input key = Inl SyntaxError"
proof -
  have "regexpLimit P < max (length key + 2) 5" using assms by arith
  then show ?thesis by (simp only: jsonishFallback_eq if_True)
qed

section \<open>What the strategies can return\<close>

lemma js_or_text:
  assumes "a = Undefined \<or> (\<exists>x. a = Str x)" "b = Undefined \<or> (\<exists>x. b = Str x)"
  shows "js_or a b = Undefined \<or> (\<exists>x. js_or a b = Str x)"
  using assms unfolding js_or_def by (cases "truthy a") auto

lemma searchUrlLike_text:
  "searchUrlLike P input key = Inr v \<Longrightarrow> v = Undefined \<or> (\<exists>s. v = Str s)"
  unfolding searchUrlLike_eq by (simp split: option.splits sum.splits if_splits) blast+

lemma genericFallback_text:
  assumes "genericFallback P input key = Inr v"
  shows "v = Undefined \<or> (\<exists>s. v = Str s)"
proof (cases "RegExp_exec P input \<lparr>pattern = genericPattern key, ignoreCase = True\<rparr>")
  case None
  then show ?thesis using assms by (simp add: genericFallback_eq split: if_splits)
next
  case (Some m)
  then have v: "v = js_or (js_or (m 2) (m 3)) (m 4)"
    using assms by (simp add: genericFallback_eq split: if_splits)
  show ?thesis unfolding v
    by (intro js_or_text exec_groups[OF Some])
qed

lemma notNullish_text:
  "v = Undefined \<or> (\<exists>x. v = Str x) \<Longrightarrow> notNullish v \<Longrightarrow> \<exists>x. v = Str x"
  by (auto simp: notNullish_def)

lemma jsonishResult_scalar:
  assumes "RegExp_exec P s re = Some m"
  shows "(\<exists>x. jsonishResult P m = Str x) \<or> (\<exists>n. jsonishResult P m = Num n)
         \<or> (\<exists>b. jsonishResult P m = Bool b) \<or> jsonishResult P m = Null"
proof (cases "notNullish (m 1)")
  case True
  then show ?thesis using notNullish_text[OF exec_groups[OF assms, of 1]]
    by (simp add: jsonishResult_def)
next
  case n1: False
  show ?thesis
  proof (cases "notNullish (m 2)")
    case True
    then show ?thesis using n1 notNullish_text[OF exec_groups[OF assms, of 2]]
      by (simp add: jsonishResult_def)
  next
    case n2: False
    show ?thesis
    proof (cases "notNullish (m 3)")
      case True
      then obtain x where "m 3 = Str x" using notNullish_text[OF exec_groups[OF assms, of 3]] by blast
      then show ?thesis using n1 n2 True by (simp add: jsonishResult_def Let_def)
    next
      case False
      then show ?thesis using n1 n2 by (simp add: jsonishResult_def)
    qed
  qed
qed

lemma typeof_not_object:
  "typeof v \<noteq> ''object'' \<Longrightarrow> \<not> isArray v \<and> \<not> isObject v"
  by (simp add: isObject_def isArray_def typeof_def split: jsval.splits)

lemma strictLookup_not_composite:
  "\<not> isArray (strictLookup input key) \<and> \<not> isObject (strictLookup input key)"
proof -
  have u: "\<not> isArray Undefined \<and> \<not> isObject Undefined"
    by (simp add: isArray_def isObject_def typeof_def)
  show ?thesis
    unfolding strictLookup_def Let_def using u typeof_not_object by (simp split: if_splits)
qed

lemma extractValue_Inr_cases:
  assumes "extractValue P input key = Inr v"
  shows "v = Undefined \<or> searchJsonLike P input key = Inr v
       \<or> searchUrlLike P input key = Inr v \<or> genericFallback P input key = Inr v"
  using assms by (auto simp: extractValue_def split: if_splits sum.splits)

lemma jsonishFallback_scalar:
  assumes "jsonishFallback P input key = Inr v"
  shows "\<not> isArray v \<and> \<not> isObject v"
proof (cases "RegExp_exec P input \<lparr>pattern = jsonishPattern key, ignoreCase = True\<rparr>")
  case None
  then show ?thesis using assms
    by (auto simp: jsonishFallback_eq isArray_def isObject_def typeof_def split: if_splits)
next
  case (Some m)
  then have "v = jsonishResult P m" using assms by (simp add: jsonishFallback_eq split: if_splits)
  then show ?thesis using jsonishResult_scalar[OF Some]
    by (auto simp: isArray_def isObject_def typeof_def)
qed

lemma no_array_or_object_result:
  assumes "extractValue P input key = Inr v"
  shows "\<not> isArray v \<and> \<not> isObject v"
proof -
  have strs: "w = Undefined \<or> (\<exists>s. w = Str s) \<Longrightarrow> \<not> isArray w \<and> \<not> isObject w" for w
    by (auto simp: isArray_def isObject_def typeof_def)
  have js: "searchJsonLike P input key = Inr v \<Longrightarrow> \<not> isArray v \<and> \<not> isObject v"
    using jsonishFallback_scalar[of P input key v] strictLookup_not_composite[of input key]
    by (auto simp: searchJsonLike_def Let_def split: if_splits)
  from extractValue_Inr_cases[OF assms] show ?thesis
    using strs js searchUrlLike_text[of P input key v] genericFallback_text[of P input key v]
    by blast
qed

section \<open>The URL parser is consulted by the URL strategy only\<close>

lemma Canonicalize_new_URL: "Canonicalize (P\<lparr>new_URL := f\<rparr>) = Canonicalize P"
  by (simp add: fun_eq_iff Canonicalize_def)

lemma itemMatches_new_URL: "itemMatches (P\<lparr>new_URL := f\<rparr>) = itemMatches P"
  by (simp add: fun_eq_iff itemMatches_def Canonicalize_new_URL split: citem.splits)

lemma atomMatches_new_URL: "atomMatches (P\<lparr>new_URL := f\<rparr>) = atomMatches P"
  by (simp add: fun_eq_iff atomMatches_def itemMatches_new_URL Canonicalize_new_URL
      split: atom.splits)

lemma matchNode_new_URL: "matchNode (P\<lparr>new_URL := f\<rparr>) i n st = matchNode P i n st"
  by (induction n arbitrary: st)
    (simp_all add: atomMatches_new_URL split: list.splits cong: map_cong)

lemma searchFrom_new_URL: "searchFrom (P\<lparr>new_URL := f\<rparr>) re s n = searchFrom P re s n"
  by (induction s arbitrary: n) (simp_all add: matchNode_new_URL split: list.splits)

lemma exec_new_URL: "RegExp_exec (P\<lparr>new_URL := f\<rparr>) s re = RegExp_exec P s re"
  by (simp add: RegExp_exec_def searchFrom_new_URL)

lemma jsonishResult_new_URL: "jsonishResult (P\<lparr>new_URL := f\<rparr>) m = jsonishResult P m"
  by (simp add: jsonishResult_def String_toLowerCase_def)

lemma jsonishFallback_new_URL:
  "jsonishFallback (P\<lparr>new_URL := f\<rparr>) input key = jsonishFallback P input key"
  by (simp add: jsonishFallback_eq exec_new_URL jsonishResult_new_URL split: option.splits)

lemma searchJsonLike_new_URL:
  "searchJsonLike (P\<lparr>new_URL := f\<rparr>) input key = searchJsonLike P input key"
  by (simp add: searchJsonLike_def jsonishFallback_new_URL Let_def)

lemma genericFallback_new_URL:
  "genericFallback (P\<lparr>new_URL := f\<rparr>) input key = genericFallback P input key"
  by (simp add: genericFallback_eq exec_new_URL split: option.splits)

section \<open>What the JSON-ish pattern matches\<close>

text \<open>
  A match of the JSON-ish pattern starts at a double quote, reads the key up to letter
  case, a double quote, a colon between optional white space, and one of the five value
  alternatives; at most one of the groups 1 to 4 takes part, and group 3 holds a
  non-empty run of digits, \<open>.\<close> and \<open>-\<close>.
\<close>

lemma Canonicalize_plain_iff:
  assumes "d < 0x80" "\<not> (0x41 \<le> d \<and> d \<le> 0x5A)" "\<not> (0x61 \<le> d \<and> d \<le> 0x7A)"
  shows "Canonicalize P i d = Canonicalize P i c \<longleftrightarrow> c = d"
proof
  assume "Canonicalize P i d = Canonicalize P i c"
  then have "Canonicalize P i c = d" using Canonicalize_plain[of d P i] assms by simp
  then show "c = d" using Canonicalize_eq_plain[of P i c d] assms by simp
next
  assume "c = d"
  then show "Canonicalize P i d = Canonicalize P i c" by simp
qed

lemma quote_matches:
  "atomMatches P i (AChar (ch CHR 0x22)) c \<longleftrightarrow> c = ch CHR 0x22"
  by (simp add: atomMatches_def Canonicalize_plain_iff)

lemma numeric_class:
  "atomMatches P i (AClass False [CChar (ch CHR ''-''), CDigit, CChar (ch CHR ''.'')]) c
     \<longleftrightarrow> isNumericChar c"
  by (auto simp: atomMatches_def itemMatches_def isNumericChar_def Canonicalize_plain_iff)

lemma matchNode_SeqE:
  assumes "st' \<in> set (matchNode P i (NSeq a b) st)"
  obtains st1 where "st1 \<in> set (matchNode P i a st)" "st' \<in> set (matchNode P i b st1)"
  using assms unfolding in_matchNode_Seq by blast

lemma atom_captures:
  "st' \<in> set (matchNode P i (NAtom a) st) \<Longrightarrow> captures st' = captures st"
  unfolding in_matchNode_Atom by auto

lemma spaces_captures:
  "st' \<in> set (matchNode P i spaces st) \<Longrightarrow> captures st' = captures st"
  unfolding spaces_def in_matchNode_Star by auto

lemma in_quoted:
  assumes "st' \<in> set (matchNode P i (quoted q g) st)"
  shows "\<exists>x. captures st' = (g, x) # captures st"
  using assms unfolding quoted_def in_matchNode_Seq Bex_def in_matchNode_Atom in_matchNode_Group
    in_matchNode_Plus in_matchNode_Empty
  by auto

lemma in_literal_captures:
  "st' \<in> set (matchNode P i (literal k NEmpty) st) \<Longrightarrow> captures st' = captures st"
  unfolding in_matchNode_literal in_matchNode_Empty by auto

lemma in_jsonishValue:
  assumes "st' \<in> set (matchNode P i jsonishValue st)"
  shows "(\<exists>x. captures st' = (1, x) # captures st)
       \<or> (\<exists>x. captures st' = (2, x) # captures st)
       \<or> (\<exists>x. captures st' = (3, x) # captures st \<and> x \<noteq> [] \<and> list_all isNumericChar x)
       \<or> (\<exists>x. captures st' = (4, x) # captures st)
       \<or> captures st' = captures st"
proof -
  let ?num = "NSeq (NGroup 3 (NSeq (NPlus (AClass False [CChar (ch CHR ''-''), CDigit, CChar (ch CHR ''.'')])) NEmpty)) NEmpty"
  let ?bool = "NSeq (NGroup 4 (NAlt (literal (str ''true'') NEmpty) (literal (str ''false'') NEmpty))) NEmpty"
  from assms consider
      (dq) \<open>st' \<in> set (matchNode P i (quoted (ch CHR ''"'') 1) st)\<close>
    | (sq) "st' \<in> set (matchNode P i (quoted (ch CHR 0x27) 2) st)"
    | (num) "st' \<in> set (matchNode P i ?num st)"
    | (bool) "st' \<in> set (matchNode P i ?bool st)"
    | (null) "st' \<in> set (matchNode P i (literal (str ''null'') NEmpty) st)"
    unfolding jsonishValue_def in_matchNode_Alt by blast
  then show ?thesis
  proof cases
    case dq
    then show ?thesis using in_quoted by blast
  next
    case sq
    then show ?thesis using in_quoted by blast
  next
    case num
    then obtain run r where run: "run \<noteq> []" "ahead st = run @ r"
        "list_all isNumericChar run"
        "st' = st\<lparr>ahead := r, index := index st + length run,
              captures := (3, take (index st + length run - index st) (ahead st)) # captures st\<rparr>"
      unfolding in_matchNode_Seq Bex_def in_matchNode_Group in_matchNode_Plus in_matchNode_Empty
        numeric_class[abs_def]
      by (auto simp: numeric_class cong: list.pred_cong)
    then have "captures st' = (3, run) # captures st" by simp
    then show ?thesis using run(1,3) by blast
  next
    case bool
    then obtain st1 where "st1 \<in> set (matchNode P i (literal (str ''true'') NEmpty) st)
         \<or> st1 \<in> set (matchNode P i (literal (str ''false'') NEmpty) st)"
      and "st' = st1\<lparr>captures := (4, take (index st1 - index st) (ahead st)) # captures st1\<rparr>"
      unfolding in_matchNode_Seq Bex_def in_matchNode_Group in_matchNode_Alt in_matchNode_Empty
      by auto
    then show ?thesis using in_literal_captures by auto
  next
    case null
    then show ?thesis using in_literal_captures by blast
  qed
qed

lemma in_jsonishPattern:
  assumes "st' \<in> set (matchNode P i (jsonishPattern key) st)"
  shows "(\<exists>k' post. ahead st = ch CHR 0x22 # k' @ ch CHR 0x22 # post
            \<and> map (Canonicalize P i) k' = map (Canonicalize P i) key)
       \<and> ((\<exists>x. captures st' = (1, x) # captures st)
          \<or> (\<exists>x. captures st' = (2, x) # captures st)
          \<or> (\<exists>x. captures st' = (3, x) # captures st \<and> x \<noteq> [] \<and> list_all isNumericChar x)
          \<or> (\<exists>x. captures st' = (4, x) # captures st)
          \<or> captures st' = captures st)"
proof -
  let ?t4 = "NSeq jsonishValue NEmpty"
  let ?t3 = "NSeq spaces ?t4"
  let ?t2 = "NSeq (NAtom (AChar (ch CHR '':''))) ?t3"
  let ?t1 = "NSeq spaces ?t2"
  let ?t0 = "NSeq (NAtom (AChar (ch CHR 0x22))) ?t1"
  have pat: "jsonishPattern key = NSeq (NAtom (AChar (ch CHR 0x22))) (literal key ?t0)"
    by (simp add: jsonishPattern_def)
  from assms obtain s1 where s1: "s1 \<in> set (matchNode P i (NAtom (AChar (ch CHR 0x22))) st)"
    and 1: "st' \<in> set (matchNode P i (literal key ?t0) s1)"
    unfolding pat by (rule matchNode_SeqE)
  from s1 obtain cs where cs: "ahead st = ch CHR 0x22 # cs" "s1 = st\<lparr>ahead := cs, index := Suc (index st)\<rparr>"
    unfolding in_matchNode_Atom quote_matches by auto
  from 1 obtain k' r where k': "ahead s1 = k' @ r" "map (Canonicalize P i) k' = map (Canonicalize P i) key"
    and 2: "st' \<in> set (matchNode P i ?t0 (s1\<lparr>ahead := r, index := index s1 + length key\<rparr>))"
    unfolding in_matchNode_literal by blast
  let ?s2 = "s1\<lparr>ahead := r, index := index s1 + length key\<rparr>"
  from 2 obtain s3 where s3: "s3 \<in> set (matchNode P i (NAtom (AChar (ch CHR 0x22))) ?s2)"
    and 3: "st' \<in> set (matchNode P i ?t1 s3)"
    by (rule matchNode_SeqE)
  from s3 obtain post where post: "r = ch CHR 0x22 # post"
    unfolding in_matchNode_Atom quote_matches by auto
  from 3 obtain s4 where s4: "s4 \<in> set (matchNode P i spaces s3)"
    and 4: "st' \<in> set (matchNode P i ?t2 s4)"
    by (rule matchNode_SeqE)
  from 4 obtain s5 where s5: "s5 \<in> set (matchNode P i (NAtom (AChar (ch CHR '':''))) s4)"
    and 5: "st' \<in> set (matchNode P i ?t3 s5)"
    by (rule matchNode_SeqE)
  from 5 obtain s6 where s6: "s6 \<in> set (matchNode P i spaces s5)"
    and 6: "st' \<in> set (matchNode P i ?t4 s6)"
    by (rule matchNode_SeqE)
  from 6 have 7: "st' \<in> set (matchNode P i jsonishValue s6)"
    unfolding in_matchNode_Seq in_matchNode_Empty by simp
  have "captures s6 = captures st"
    using spaces_captures[OF s6] atom_captures[OF s5] spaces_captures[OF s4] atom_captures[OF s3]
      cs(2) by simp
  moreover have "ahead st = ch CHR 0x22 # k' @ ch CHR 0x22 # post"
    using cs k'(1) post by simp
  ultimately show ?thesis using k'(2) in_jsonishValue[OF 7] by auto
qed


lemma first_match_jsonish:
  assumes "RegExp_exec P input \<lparr>pattern = jsonishPattern key, ignoreCase = True\<rparr> = Some m"
  shows "\<exists>st i. m = groupsOf st \<and> i \<le> length input
           \<and> firstMatch P \<lparr>pattern = jsonishPattern key, ignoreCase = True\<rparr> input = Some st
           \<and> st \<in> set (matchNode P True (jsonishPattern key)
                          \<lparr>ahead = drop i input, index = i, captures = []\<rparr>)"
proof -
  let ?re = "\<lparr>pattern = jsonishPattern key, ignoreCase = True\<rparr>"
  from assms obtain st where st: "firstMatch P ?re input = Some st" "m = groupsOf st"
    by (auto simp: exec_firstMatch split: option.splits)
  from firstMatch_Some[OF st(1)] obtain i where "i \<le> length input"
    "st \<in> set (matchesAt P ?re input i)" by blast
  then show ?thesis using st by (auto simp: matchesAt_def)
qed

lemma numeric_group:
  assumes "RegExp_exec P input \<lparr>pattern = jsonishPattern key, ignoreCase = True\<rparr> = Some m"
    and "m 3 = Str s"
  shows "s \<noteq> [] \<and> list_all isNumericChar s \<and> m 1 = Undefined \<and> m 2 = Undefined"
proof -
  from first_match_jsonish[OF assms(1)] obtain st i where m: "m = groupsOf st"
    and st: "st \<in> set (matchNode P True (jsonishPattern key)
                          \<lparr>ahead = drop i input, index = i, captures = []\<rparr>)"
    by blast
  from in_jsonishPattern[OF st] have
    "(\<exists>x. captures st = [(1, x)]) \<or> (\<exists>x. captures st = [(2, x)])
     \<or> (\<exists>x. captures st = [(3, x)] \<and> x \<noteq> [] \<and> list_all isNumericChar x)
     \<or> (\<exists>x. captures st = [(4, x)]) \<or> captures st = []"
    by simp
  then show ?thesis using assms(2) unfolding m groupsOf_def by auto
qed

lemma matchNode_literal_cong:
  "map (Canonicalize P i) k' = map (Canonicalize P i) k \<Longrightarrow>
   matchNode P i (literal k' tail) st = matchNode P i (literal k tail) st"
proof (induction k arbitrary: k' st)
  case Nil
  then show ?case by simp
next
  case (Cons c k)
  then obtain c' k'' where k': "k' = c' # k''" "Canonicalize P i c' = Canonicalize P i c"
    "map (Canonicalize P i) k'' = map (Canonicalize P i) k" by (cases k') auto
  have "matchNode P i (literal k'' tail) = matchNode P i (literal k tail)"
    using Cons.IH[OF k'(3)] by (rule ext)
  then show ?case using k'(1,2) by (simp add: literal_def atomMatches_def split: list.splits)
qed

lemma jsonishFallback_cong:
  assumes "map (Canonicalize P True) key' = map (Canonicalize P True) key"
  shows "jsonishFallback P input key' = jsonishFallback P input key"
proof -
  have "matchNode P True (literal key' tail) = matchNode P True (literal key tail)" for tail
    using matchNode_literal_cong[OF assms] by (rule ext)
  then have "matchNode P True (jsonishPattern key') st = matchNode P True (jsonishPattern key) st" for st
    by (simp add: jsonishPattern_def)
  then have "matchesAt P \<lparr>pattern = jsonishPattern key', ignoreCase = True\<rparr> input
           = matchesAt P \<lparr>pattern = jsonishPattern key, ignoreCase = True\<rparr> input"
    by (simp add: matchesAt_def fun_eq_iff)
  then have "firstMatch P \<lparr>pattern = jsonishPattern key', ignoreCase = True\<rparr> input
           = firstMatch P \<lparr>pattern = jsonishPattern key, ignoreCase = True\<rparr> input"
    unfolding firstMatch_def by (simp only:)
  moreover have "length key' = length key"
    using assms by (rule map_eq_imp_length_eq)
  ultimately show ?thesis
    by (simp only: jsonishFallback_eq exec_firstMatch)
qed

lemma jsonishFallback_found:
  assumes "jsonishFallback P input key = Inr v" "v \<noteq> Undefined"
  shows "\<exists>pre k' post. input = pre @ ch CHR 0x22 # k' @ ch CHR 0x22 # post
            \<and> map (Canonicalize P True) k' = map (Canonicalize P True) key"
proof -
  let ?re = "\<lparr>pattern = jsonishPattern key, ignoreCase = True\<rparr>"
  from assms obtain m where "RegExp_exec P input ?re = Some m"
    by (auto simp: jsonishFallback_eq split: option.splits if_splits)
  from first_match_jsonish[OF this] obtain st i where
    st: "st \<in> set (matchNode P True (jsonishPattern key)
                          \<lparr>ahead = drop i input, index = i, captures = []\<rparr>)"
    by blast
  from in_jsonishPattern[OF st] obtain k' post where
    d: "drop i input = ch CHR 0x22 # k' @ ch CHR 0x22 # post"
    and k: "map (Canonicalize P True) k' = map (Canonicalize P True) key"
    by auto
  have "input = take i input @ ch CHR 0x22 # k' @ ch CHR 0x22 # post"
    using d append_take_drop_id[of i input] by simp
  then show ?thesis using k by blast
qed

section \<open>Claims\<close>

text \<open>
  C4. For every input and every key that is empty or consists only of white space,
  \<open>extractValue\<close> returns absent (\<open>undefined\<close>), whatever the input and the platform.
\<close>

theorem blank_key_absent:
  "list_all isWhiteSpace key \<Longrightarrow> extractValue P input key = Inr Undefined"
proof -
  assume "list_all isWhiteSpace key"
  then have d: "dropWhile isWhiteSpace key = []"
    by (simp add: list_all_iff)
  have "trim key = []"
    by (simp only: trim_def d rev.simps dropWhile.simps)
  then show ?thesis by (simp add: extractValue_def)
qed

theorem blank_key_absent_witness:
  "list_all isWhiteSpace (str ''  '') \<and> list_all isWhiteSpace []
   \<and> extractValue examplePlatform (str ''eid=1'') (str ''  '') = Inr Undefined
   \<and> extractValue examplePlatform (str ''eid=1'') [] = Inr Undefined"
proof -
  have a: "list_all isWhiteSpace (str ''  '')" by (simp add: str_def isWhiteSpace_def)
  have b: "list_all isWhiteSpace []" by simp
  show ?thesis
    using a b blank_key_absent[OF a, of examplePlatform "str ''eid=1''"]
      blank_key_absent[OF b, of examplePlatform "str ''eid=1''"]
    by simp
qed




text \<open>
  C1. For a key that is not empty after trimming, \<open>extractValue\<close> returns the result of
  the JSON-like strategy if that is not absent, else the result of the URL/Query
  strategy if that is not absent, else the result of the generic fallback. Once the
  JSON-like strategy has a result the URL strategy is not consulted: the result is the
  same whatever the URL parser would do. For the text \<open>{"eid":"A1"} eid=B2\<close> both later
  strategies would find \<open>B2\<close>, and the result is \<open>A1\<close>.
\<close>

theorem strategy_order:
  assumes "trim key \<noteq> []"
  shows "(searchJsonLike P input key = Inr j \<and> j \<noteq> Undefined \<longrightarrow>
            extractValue P input key = Inr j
            \<and> extractValue (P\<lparr>new_URL := url\<rparr>) input key = Inr j)
       \<and> (searchJsonLike P input key = Inr Undefined \<and> searchUrlLike P input key = Inr u
            \<and> u \<noteq> Undefined \<longrightarrow> extractValue P input key = Inr u)
       \<and> (searchJsonLike P input key = Inr Undefined \<and> searchUrlLike P input key = Inr Undefined
            \<longrightarrow> extractValue P input key = genericFallback P input key)"
  using assms by (simp add: extractValue_def searchJsonLike_new_URL)

theorem strategy_order_witness:
  \<open>trim (str ''eid'') \<noteq> []
   \<and> searchJsonLike examplePlatform (str ''{"eid":"A1"} eid=B2'') (str ''eid'') = Inr (Str (str ''A1''))
   \<and> searchUrlLike examplePlatform (str ''{"eid":"A1"} eid=B2'') (str ''eid'') = Inr (Str (str ''B2''))
   \<and> genericFallback examplePlatform (str ''{"eid":"A1"} eid=B2'') (str ''eid'') = Inr (Str (str ''B2''))
   \<and> extractValue examplePlatform (str ''{"eid":"A1"} eid=B2'') (str ''eid'') = Inr (Str (str ''A1''))
   \<and> extractValue examplePlatform (str ''eid=B2 {"eid":"A1"}'') (str ''eid'') = Inr (Str (str ''A1''))\<close>
proof -
  have k: "trim (str ''eid'') \<noteq> []" by code_simp
  have j: \<open>searchJsonLike examplePlatform (str ''{"eid":"A1"} eid=B2'') (str ''eid'') = Inr (Str (str ''A1''))\<close>
    by code_simp
  have u: \<open>searchUrlLike examplePlatform (str ''{"eid":"A1"} eid=B2'') (str ''eid'') = Inr (Str (str ''B2''))\<close>
    by code_simp
  have g: \<open>genericFallback examplePlatform (str ''{"eid":"A1"} eid=B2'') (str ''eid'') = Inr (Str (str ''B2''))\<close>
    by code_simp
  have j2: \<open>searchJsonLike examplePlatform (str ''eid=B2 {"eid":"A1"}'') (str ''eid'') = Inr (Str (str ''A1''))\<close>
    by code_simp
  have "Str (str ''A1'') \<noteq> Undefined" by simp
  then show ?thesis
    using k j u g j2
      strategy_order[OF k, of examplePlatform \<open>str ''{"eid":"A1"} eid=B2''\<close> "Str (str ''A1'')"]
      strategy_order[OF k, of examplePlatform \<open>str ''eid=B2 {"eid":"A1"}''\<close> "Str (str ''A1'')"]
    by simp
qed

text \<open>
  A top-level field whose value is a string, a number or a boolean is returned as it
  is, by the strict lookup.
\<close>

lemma scalar_field_returned:
  assumes "tryParseJson input = Obj fs" "map_of (rev fs) key = Some v"
    and "(\<exists>s. v = Str s) \<or> (\<exists>n. v = Num n) \<or> (\<exists>b. v = Bool b)"
    and "ch CHR ''.'' \<notin> set key" "trim key \<noteq> []"
  shows "extractValue P input key = Inr v"
proof -
  have "lookupParsed (Obj fs) key = v"
    using assms(2,4) by (simp add: lookupParsed_def isObject_def isArray_def typeof_def getProperty_def)
  moreover have "v \<noteq> Undefined \<and> typeof v \<noteq> ''object''"
    using assms(3) by (auto simp: typeof_def)
  ultimately have "strictLookup input key = v"
    using assms(1) by (simp add: strictLookup_def Let_def)
  then show ?thesis
    using assms(5) \<open>v \<noteq> Undefined \<and> typeof v \<noteq> ''object''\<close>
    by (simp add: extractValue_def searchJsonLike_def Let_def)
qed

text \<open>
  C2 holds for string, number and boolean fields (the lemma above) but not for
  \<open>null\<close>: the strict lookup discards a \<open>null\<close> field, since \<open>typeof null\<close> is
  \<open>"object"\<close>, and leaves it to the regular-expression fallback, which takes the first
  \<open>"k":\<close> of the raw text wherever it stands. For \<open>{"a":{"k":7},"k":null}\<close> the
  top-level field \<open>k\<close> is \<open>null\<close> and \<open>extractValue\<close> returns the number \<open>7\<close> of the
  nested object.
\<close>

theorem null_field_shadowed:
  \<open>tryParseJson (str ''{"a":{"k":7},"k":null}'')
     = Obj [(str ''a'', Obj [(str ''k'', Num (num 7))]), (str ''k'', Null)]
   \<and> getProperty (tryParseJson (str ''{"a":{"k":7},"k":null}'')) (str ''k'') = Null
   \<and> extractValue examplePlatform (str ''{"a":{"k":7},"k":null}'') (str ''k'') = Inr (Num (num 7))\<close>
  by code_simp

text \<open>
  C3 fails in the code. The strict lookup reads the key as a property of the parsed
  object, and a property read follows the prototype chain: for the key \<open>constructor\<close>
  it finds the function every object inherits from \<open>Object.prototype\<close>. The test
  \<open>typeof val !== "object"\<close> lets a function through, its \<open>typeof\<close> being \<open>"function"\<close>,
  so for the input \<open>{"a":1}\<close>, which has no such field, \<open>extractValue\<close> returns a
  function object where the claim allows no composite value. Arrays and the objects
  that \<open>typeof\<close> calls \<open>"object"\<close> are kept out (lemma \<open>no_array_or_object_result\<close>), and
  for the claim's own example, \<open>{"user":{"id":42}}\<close> with the key \<open>user\<close>, the result is
  absent.
\<close>

theorem inherited_function_returned:
  \<open>tryParseJson (str ''{"a":1}'') = Obj [(str ''a'', Num (num 1))]
   \<and> strictLookup (str ''{"a":1}'') (str ''constructor'') = Fun (str ''constructor'')
   \<and> typeof (Fun (str ''constructor'')) = ''function''
   \<and> extractValue examplePlatform (str ''{"a":1}'') (str ''constructor'')
        = Inr (Fun (str ''constructor''))
   \<and> extractValue examplePlatform (str ''{"a":{}}'') (str ''a.valueOf'')
        = Inr (Fun (str ''valueOf''))
   \<and> extractValue examplePlatform (str ''{"user":{"id":42}}'') (str ''user'') = Inr Undefined\<close>
  by code_simp

text \<open>
  What the URL branch computes: the value \<open>searchParams.get\<close> yields, which is the
  parameter value already percent-decoded, is given to \<open>decodeMaybe\<close>.
\<close>

lemma url_parameter_result:
  assumes "new_URL P (trim input) = Inr query"
    and "searchParams_get (urlencodedParse query) key = Some val"
  shows "searchUrlLike P input key =
           Inr (Str (case decodeURIComponent val of Inr d \<Rightarrow> d | Inl e \<Rightarrow> val))"
  using assms by (simp add: searchUrlLike_eq decodeMaybe_def)

text \<open>
  The name is looked up as a \<open>USVString\<close>: a key that is a surrogate without its partner
  finds the parameter whose name is U+FFFD.
\<close>

lemma searchParams_get_lone_surrogate:
  "searchParams_get (urlencodedParse (str ''%EF%BF%BD=1'')) [0xD800] = Some (str ''1'')
   \<and> searchUrlLike examplePlatform (str ''https://example.com/?%EF%BF%BD=1'') [0xD800]
        = Inr (Str (str ''1''))"
  by code_simp

text \<open>
  C7 fails in the code: the parameter value is percent-decoded twice. The value that
  \<open>searchParams.get\<close> hands over is already decoded, and \<open>decodeMaybe\<close> decodes it once
  more. In \<open>https://example.com/?eid=%2541\<close> the parameter \<open>eid\<close> is written \<open>%2541\<close> and
  has the value \<open>%41\<close>; the code returns \<open>A\<close>. In \<open>https://example.com/?eid=%E0%A4%A\<close> the
  parameter does not decode (\<open>decodeURIComponent\<close> throws on it), and what comes back
  is not the raw encoded text \<open>%E0%A4%A\<close> but U+FFFD followed by \<open>%A\<close>, the lossy decoding
  by \<open>searchParams.get\<close>. Where the decoded value has no \<open>%\<close> left, as in the example
  \<open>eid=abc%20def\<close> of the specification, the second decoding changes nothing.
\<close>

theorem url_parameter_decoded_twice:
  \<open>new_URL examplePlatform (trim (str ''https://example.com/?eid=%2541'')) = Inr (str ''eid=%2541'')
   \<and> searchParams_get (urlencodedParse (str ''eid=%2541'')) (str ''eid'') = Some (str ''%41'')
   \<and> decodeURIComponent (str ''%2541'') = Inr (str ''%41'')
   \<and> searchUrlLike examplePlatform (str ''https://example.com/?eid=%2541'') (str ''eid'')
        = Inr (Str (str ''A''))
   \<and> extractValue examplePlatform (str ''https://example.com/?eid=%2541'') (str ''eid'')
        = Inr (Str (str ''A''))
   \<and> new_URL examplePlatform (trim (str ''https://example.com/?eid=%E0%A4%A''))
        = Inr (str ''eid=%E0%A4%A'')
   \<and> decodeURIComponent (str ''%E0%A4%A'') = Inl URIError
   \<and> searchParams_get (urlencodedParse (str ''eid=%E0%A4%A'')) (str ''eid'')
        = Some (0xFFFD # str ''%A'')
   \<and> extractValue examplePlatform (str ''https://example.com/?eid=%E0%A4%A'') (str ''eid'')
        = Inr (Str (0xFFFD # str ''%A''))
   \<and> extractValue examplePlatform (str ''https://example.com/?eid=abc%20def&x=1'') (str ''eid'')
        = Inr (Str (str ''abc def''))\<close>
  by code_simp

text \<open>
  C10. A result of the URL/Query strategy or of the generic fallback that is not absent
  is a string; if \<open>extractValue\<close> returns a number, a boolean or \<open>null\<close>, that value is
  the result of the JSON-like strategy. So \<open>eid=77\<close> yields the string \<open>77\<close>.
\<close>

theorem fallback_results_are_strings:
  "(searchUrlLike P input key = Inr v \<longrightarrow> v = Undefined \<or> (\<exists>s. v = Str s))
   \<and> (genericFallback P input key = Inr v \<longrightarrow> v = Undefined \<or> (\<exists>s. v = Str s))
   \<and> (extractValue P input key = Inr v \<and> (v = Null \<or> (\<exists>b. v = Bool b) \<or> (\<exists>n. v = Num n)) \<longrightarrow>
         searchJsonLike P input key = Inr v)"
proof -
  have 3: "extractValue P input key = Inr v \<and> (v = Null \<or> (\<exists>b. v = Bool b) \<or> (\<exists>n. v = Num n)) \<longrightarrow>
         searchJsonLike P input key = Inr v"
  proof
    assume a: "extractValue P input key = Inr v \<and> (v = Null \<or> (\<exists>b. v = Bool b) \<or> (\<exists>n. v = Num n))"
    then have "v = Undefined \<or> searchJsonLike P input key = Inr v
       \<or> searchUrlLike P input key = Inr v \<or> genericFallback P input key = Inr v"
      using extractValue_Inr_cases by blast
    then show "searchJsonLike P input key = Inr v"
      using a searchUrlLike_text[of P input key v] genericFallback_text[of P input key v] by auto
  qed
  show ?thesis using searchUrlLike_text genericFallback_text 3 by blast
qed

theorem fallback_results_are_strings_witness:
  \<open>searchJsonLike examplePlatform (str ''eid=77'') (str ''eid'') = Inr Undefined
   \<and> searchUrlLike examplePlatform (str ''eid=77'') (str ''eid'') = Inr (Str (str ''77''))
   \<and> extractValue examplePlatform (str ''eid=77'') (str ''eid'') = Inr (Str (str ''77''))
   \<and> genericFallback examplePlatform (str ''name: John; eid: 77'') (str ''eid'') = Inr (Str (str ''77''))
   \<and> extractValue examplePlatform (str ''{"n":null}'') (str ''n'') = Inr Null
   \<and> searchJsonLike examplePlatform (str ''{"n":null}'') (str ''n'') = Inr Null\<close>
proof -
  have a: \<open>searchJsonLike examplePlatform (str ''eid=77'') (str ''eid'') = Inr Undefined\<close> by code_simp
  have b: \<open>searchUrlLike examplePlatform (str ''eid=77'') (str ''eid'') = Inr (Str (str ''77''))\<close>
    by code_simp
  have c: \<open>extractValue examplePlatform (str ''eid=77'') (str ''eid'') = Inr (Str (str ''77''))\<close>
    by code_simp
  have d: \<open>genericFallback examplePlatform (str ''name: John; eid: 77'') (str ''eid'') = Inr (Str (str ''77''))\<close>
    by code_simp
  have e: \<open>extractValue examplePlatform (str ''{"n":null}'') (str ''n'') = Inr Null\<close> by code_simp
  show ?thesis
    using a b c d e
      fallback_results_are_strings[of examplePlatform \<open>str ''{"n":null}''\<close> "str ''n''" Null]
    by simp
qed

text \<open>What a failure inside a strategy turns into.\<close>

lemma tryParseJson_failure:
  "JSON_parse (trim input) = Inl e \<Longrightarrow> tryParseJson input = Undefined"
  by (simp add: tryParseJson_def Let_def)

lemma strictLookup_failure:
  "tryParseJson input = Undefined \<Longrightarrow> strictLookup input key = Undefined"
  by (simp add: strictLookup_def Let_def)

lemma searchUrlLike_new_URL_failure:
  assumes "new_URL P (trim input) = Inl e"
  shows "searchUrlLike P input key =
     (case searchParams_get (URLSearchParams (stripLeading (trim input))) key of
        Some val \<Rightarrow> Inr (Str (decodeMaybe val))
      | None \<Rightarrow>
          if regexpLimit P < max (length key) 1 then Inl SyntaxError
          else (case RegExp_exec P (stripLeading (trim input)) \<lparr>pattern = urlPattern key, ignoreCase = True\<rparr> of
                  Some m \<Rightarrow> Inr (Str (decodeMaybe (groupText (js_or (js_or (m 2) (m 3)) (m 4)))))
                | None \<Rightarrow> Inr Undefined))"
  using assms by (simp only: searchUrlLike_eq sum.case option.case)

lemma searchJsonLike_failure:
  "JSON_parse (trim input) = Inl e \<Longrightarrow> searchJsonLike P input key = jsonishFallback P input key"
  by (simp add: searchJsonLike_def tryParseJson_failure strictLookup_failure)

lemma trim_Nil: "trim s = [] \<longleftrightarrow> list_all isWhiteSpace s"
proof
  assume "list_all isWhiteSpace s"
  then have d: "dropWhile isWhiteSpace s = []" by (simp add: list_all_iff)
  show "trim s = []" by (simp only: trim_def d rev.simps dropWhile.simps)
next
  assume t: "trim s = []"
  let ?d = "dropWhile isWhiteSpace s"
  have "dropWhile isWhiteSpace (rev ?d) = []" using t by (simp add: trim_def)
  then have "\<forall>c\<in>set ?d. isWhiteSpace c" by (simp add: dropWhile_eq_Nil_conv)
  moreover have "?d \<noteq> [] \<Longrightarrow> \<not> isWhiteSpace (hd ?d)" by (rule hd_dropWhile)
  ultimately have "?d = []" by (cases ?d) auto
  then show "list_all isWhiteSpace s" by (simp add: list_all_iff dropWhile_eq_Nil_conv)
qed

lemma trim_replicate:
  "0 < n \<Longrightarrow> \<not> isWhiteSpace c \<Longrightarrow> trim (replicate n c) \<noteq> []"
  by (simp add: trim_Nil list_all_iff)

lemma long_key_throws:
  assumes "regexpLimit P < length key + 2" "trim key \<noteq> []" "strictLookup input key = Undefined"
  shows "extractValue P input key = Inl SyntaxError"
  using assms by (simp add: extractValue_def searchJsonLike_def jsonishFallback_throws)

text \<open>
  C9, as stated, fails. A failure that is caught does not make the strategy it arises
  in absent: after \<open>JSON.parse\<close> has thrown, the JSON-like strategy goes on to its
  regular expression and finds \<open>5\<close> in \<open>{"eid": 5,\<close>; after \<open>new URL\<close> has thrown, the
  URL/Query strategy reads the text as a query string and finds \<open>77\<close> in \<open>eid=77\<close>; after
  \<open>decodeURIComponent\<close> has thrown, \<open>decodeMaybe\<close> hands back the text undecoded, so the
  result for \<open>eid: %zz\<close> is \<open>%zz\<close>. And an exception does reach the caller: the three
  regular expressions are built and matched outside any \<open>try\<close>, and for a key of 32766
  characters the first of them is too large for the engine, whose \<open>SyntaxError\<close> leaves
  \<open>extractValue\<close>.
\<close>

theorem failure_not_always_absent:
  \<open>JSON_parse (trim (str ''{"eid": 5,'')) = Inl SyntaxError
   \<and> searchJsonLike examplePlatform (str ''{"eid": 5,'') (str ''eid'') = Inr (Num (num 5))
   \<and> new_URL examplePlatform (trim (str ''eid=77'')) = Inl TypeError
   \<and> searchUrlLike examplePlatform (str ''eid=77'') (str ''eid'') = Inr (Str (str ''77''))
   \<and> decodeURIComponent (str ''%zz'') = Inl URIError
   \<and> searchUrlLike examplePlatform (str ''eid: %zz'') (str ''eid'') = Inr (Str (str ''%zz''))
   \<and> extractValue examplePlatform (str ''eid: %zz'') (str ''eid'') = Inr (Str (str ''%zz''))
   \<and> extractValue examplePlatform (str ''x'') (replicate 32766 (ch CHR ''a'')) = Inl SyntaxError\<close>
proof -
  have j1: \<open>JSON_parse (trim (str ''{"eid": 5,'')) = Inl SyntaxError\<close> by code_simp
  have j2: \<open>searchJsonLike examplePlatform (str ''{"eid": 5,'') (str ''eid'') = Inr (Num (num 5))\<close>
    by code_simp
  have u1: "new_URL examplePlatform (trim (str ''eid=77'')) = Inl TypeError" by code_simp
  have u2: "searchUrlLike examplePlatform (str ''eid=77'') (str ''eid'') = Inr (Str (str ''77''))"
    by code_simp
  have a: "decodeURIComponent (str ''%zz'') = Inl URIError" by code_simp
  have b: "searchUrlLike examplePlatform (str ''eid: %zz'') (str ''eid'') = Inr (Str (str ''%zz''))"
    by code_simp
  have c: "extractValue examplePlatform (str ''eid: %zz'') (str ''eid'') = Inr (Str (str ''%zz''))"
    by code_simp
  have "tryParseJson (str ''x'') = Undefined" by code_simp
  then have l: "strictLookup (str ''x'') (replicate 32766 (ch CHR ''a'')) = Undefined"
    by (rule strictLookup_failure)
  have w: "\<not> isWhiteSpace (ch CHR ''a'')" by code_simp
  have "0 < (32766::nat)" by simp
  then have t: "trim (replicate 32766 (ch CHR ''a'')) \<noteq> []"
    using w by (rule trim_replicate)
  have "regexpLimit examplePlatform = 32767" by (simp add: examplePlatform_def)
  then have r: "regexpLimit examplePlatform < length (replicate 32766 (ch CHR ''a'')) + 2"
    by (simp only: length_replicate)
  have d: "extractValue examplePlatform (str ''x'') (replicate 32766 (ch CHR ''a'')) = Inl SyntaxError"
    using r t l by (rule long_key_throws)
  from j1 j2 u1 u2 a b c d show ?thesis by (intro conjI)
qed

text \<open>
  C9, amended. For a key short enough for the engine, that is when the key between its
  two quotes, and the word \<open>false\<close>, are within the engine's limit on literal pattern
  text, \<open>extractValue\<close> and each of its strategies return a value and throw nothing, and
  a pattern that does not match leaves its fallback absent; \<open>new RegExp\<close> never throws,
  the escaped key always making a well-formed pattern. Each failure is caught where it
  arises and ends only the attempt it arises in: after a failure of \<open>JSON.parse\<close> the
  strict lookup is absent and the JSON-like strategy is its regular-expression
  fallback; after a failure of \<open>new URL\<close> the URL/Query strategy is what the raw query
  string and then its regular expression give; after a failure of
  \<open>decodeURIComponent\<close> the text is returned undecoded. For a longer key, the
  \<open>SyntaxError\<close> of the engine is thrown by the JSON-like strategy, and by
  \<open>extractValue\<close> whenever the key is not blank and the strict lookup has no result.
\<close>

theorem never_throws:
  "(max (length key + 2) 5 \<le> regexpLimit P \<longrightarrow>
      (\<exists>v. extractValue P input key = Inr v)
      \<and> (\<exists>v. searchJsonLike P input key = Inr v)
      \<and> (\<exists>v. searchUrlLike P input key = Inr v)
      \<and> (\<exists>v. genericFallback P input key = Inr v)
      \<and> (RegExp_exec P input \<lparr>pattern = jsonishPattern key, ignoreCase = True\<rparr> = None \<longrightarrow>
            jsonishFallback P input key = Inr Undefined)
      \<and> (RegExp_exec P input \<lparr>pattern = genericPattern key, ignoreCase = True\<rparr> = None \<longrightarrow>
            genericFallback P input key = Inr Undefined))
   \<and> (\<exists>re. RegExp (jsonishSource (escapeRegExp key)) True = Inr re)
   \<and> (\<exists>re. RegExp (urlSource (escapeRegExp key)) True = Inr re)
   \<and> (\<exists>re. RegExp (genericSource (escapeRegExp key)) True = Inr re)
   \<and> (JSON_parse (trim input) = Inl e \<longrightarrow>
         tryParseJson input = Undefined \<and> strictLookup input key = Undefined
         \<and> searchJsonLike P input key = jsonishFallback P input key)
   \<and> (new_URL P (trim input) = Inl e \<longrightarrow>
         searchUrlLike P input key =
           (case searchParams_get (URLSearchParams (stripLeading (trim input))) key of
              Some val \<Rightarrow> Inr (Str (decodeMaybe val))
            | None \<Rightarrow>
                if regexpLimit P < max (length key) 1 then Inl SyntaxError
                else (case RegExp_exec P (stripLeading (trim input))
                             \<lparr>pattern = urlPattern key, ignoreCase = True\<rparr> of
                        Some m \<Rightarrow>
                          Inr (Str (decodeMaybe (groupText (js_or (js_or (m 2) (m 3)) (m 4)))))
                      | None \<Rightarrow> Inr Undefined)))
   \<and> (decodeURIComponent s = Inl e \<longrightarrow> decodeMaybe s = s)
   \<and> (regexpLimit P < length key + 2 \<longrightarrow>
         jsonishFallback P input key = Inl SyntaxError
         \<and> (trim key \<noteq> [] \<and> strictLookup input key = Undefined \<longrightarrow>
              extractValue P input key = Inl SyntaxError))"
proof -
  have 1: "max (length key + 2) 5 \<le> regexpLimit P \<longrightarrow>
      (\<exists>v. extractValue P input key = Inr v)
      \<and> (\<exists>v. searchJsonLike P input key = Inr v)
      \<and> (\<exists>v. searchUrlLike P input key = Inr v)
      \<and> (\<exists>v. genericFallback P input key = Inr v)
      \<and> (RegExp_exec P input \<lparr>pattern = jsonishPattern key, ignoreCase = True\<rparr> = None \<longrightarrow>
            jsonishFallback P input key = Inr Undefined)
      \<and> (RegExp_exec P input \<lparr>pattern = genericPattern key, ignoreCase = True\<rparr> = None \<longrightarrow>
            genericFallback P input key = Inr Undefined)"
  proof
    assume k: "max (length key + 2) 5 \<le> regexpLimit P"
    then have k': "max (length key) 1 \<le> regexpLimit P" by simp
    have a: "\<exists>v. extractValue P input key = Inr v" using k by (rule extractValue_total)
    have b: "\<exists>v. searchJsonLike P input key = Inr v" using k by (rule searchJsonLike_total)
    have c: "\<exists>v. searchUrlLike P input key = Inr v" using k' by (rule searchUrlLike_total)
    have d: "\<exists>v. genericFallback P input key = Inr v" using k' by (rule genericFallback_total)
    have e: "RegExp_exec P input \<lparr>pattern = jsonishPattern key, ignoreCase = True\<rparr> = None \<longrightarrow>
            jsonishFallback P input key = Inr Undefined"
    proof -
      have "\<not> regexpLimit P < max (length key + 2) 5" using k by arith
      then show ?thesis by (simp only: jsonishFallback_eq if_False) simp
    qed
    have f: "RegExp_exec P input \<lparr>pattern = genericPattern key, ignoreCase = True\<rparr> = None \<longrightarrow>
            genericFallback P input key = Inr Undefined"
    proof -
      have "\<not> regexpLimit P < max (length key) 1" using k' by arith
      then show ?thesis by (simp only: genericFallback_eq if_False) simp
    qed
    from a b c d e f show "(\<exists>v. extractValue P input key = Inr v)
      \<and> (\<exists>v. searchJsonLike P input key = Inr v)
      \<and> (\<exists>v. searchUrlLike P input key = Inr v)
      \<and> (\<exists>v. genericFallback P input key = Inr v)
      \<and> (RegExp_exec P input \<lparr>pattern = jsonishPattern key, ignoreCase = True\<rparr> = None \<longrightarrow>
            jsonishFallback P input key = Inr Undefined)
      \<and> (RegExp_exec P input \<lparr>pattern = genericPattern key, ignoreCase = True\<rparr> = None \<longrightarrow>
            genericFallback P input key = Inr Undefined)"
      by (intro conjI)
  qed
  have 5: "\<exists>re. RegExp (jsonishSource (escapeRegExp key)) True = Inr re"
    by (simp add: RegExp_jsonish)
  have 6: "\<exists>re. RegExp (urlSource (escapeRegExp key)) True = Inr re"
    by (simp add: RegExp_url)
  have 7: "\<exists>re. RegExp (genericSource (escapeRegExp key)) True = Inr re"
    by (simp add: RegExp_generic)
  have 8: "JSON_parse (trim input) = Inl e \<longrightarrow>
         tryParseJson input = Undefined \<and> strictLookup input key = Undefined
         \<and> searchJsonLike P input key = jsonishFallback P input key"
    using tryParseJson_failure strictLookup_failure searchJsonLike_failure by blast
  have 9: "new_URL P (trim input) = Inl e \<longrightarrow>
         searchUrlLike P input key =
           (case searchParams_get (URLSearchParams (stripLeading (trim input))) key of
              Some val \<Rightarrow> Inr (Str (decodeMaybe val))
            | None \<Rightarrow>
                if regexpLimit P < max (length key) 1 then Inl SyntaxError
                else (case RegExp_exec P (stripLeading (trim input))
                             \<lparr>pattern = urlPattern key, ignoreCase = True\<rparr> of
                        Some m \<Rightarrow>
                          Inr (Str (decodeMaybe (groupText (js_or (js_or (m 2) (m 3)) (m 4)))))
                      | None \<Rightarrow> Inr Undefined))"
    using searchUrlLike_new_URL_failure by blast
  have 10: "decodeURIComponent s = Inl e \<longrightarrow> decodeMaybe s = s"
    by (simp add: decodeMaybe_def)
  have 11: "regexpLimit P < length key + 2 \<longrightarrow>
         jsonishFallback P input key = Inl SyntaxError
         \<and> (trim key \<noteq> [] \<and> strictLookup input key = Undefined \<longrightarrow>
              extractValue P input key = Inl SyntaxError)"
    using jsonishFallback_throws[of P key input] long_key_throws[of P key input] by blast
  from 1 5 6 7 8 9 10 11 show ?thesis by (intro conjI)
qed

theorem never_throws_witness:
  \<open>max (length (str ''e(d'') + 2) 5 \<le> regexpLimit examplePlatform
   \<and> JSON_parse (trim (str ''{"eid": [1,'')) = Inl SyntaxError
   \<and> new_URL examplePlatform (trim (str ''{"eid": [1,'')) = Inl TypeError
   \<and> decodeURIComponent (str ''%E0%A4%A'') = Inl URIError
   \<and> RegExp_exec examplePlatform (str ''{"eid": [1,'') \<lparr>pattern = jsonishPattern (str ''e(d''), ignoreCase = True\<rparr> = None
   \<and> RegExp_exec examplePlatform (str ''{"eid": [1,'') \<lparr>pattern = genericPattern (str ''e(d''), ignoreCase = True\<rparr> = None
   \<and> tryParseJson (str ''{"eid": [1,'') = Undefined
   \<and> decodeMaybe (str ''%E0%A4%A'') = str ''%E0%A4%A''
   \<and> jsonishFallback examplePlatform (str ''{"eid": [1,'') (str ''e(d'') = Inr Undefined
   \<and> searchJsonLike examplePlatform (str ''{"eid": [1,'') (str ''e(d'') = Inr Undefined
   \<and> genericFallback examplePlatform (str ''{"eid": [1,'') (str ''e(d'') = Inr Undefined
   \<and> extractValue examplePlatform (str ''{"eid": [1,'') (str ''e(d'') = Inr Undefined
   \<and> extractValue examplePlatform (str ''x e(d: %E0%A4%A'') (str ''e(d'') = Inr (Str (str ''%E0%A4%A''))
   \<and> regexpLimit (examplePlatform\<lparr>regexpLimit := 4\<rparr>) < length (str ''e(d'') + 2
   \<and> jsonishFallback (examplePlatform\<lparr>regexpLimit := 4\<rparr>) (str ''{"eid": [1,'') (str ''e(d'')
        = Inl SyntaxError
   \<and> extractValue (examplePlatform\<lparr>regexpLimit := 4\<rparr>) (str ''{"eid": [1,'') (str ''e(d'')
        = Inl SyntaxError\<close>
proof -
  have k: "max (length (str ''e(d'') + 2) 5 \<le> regexpLimit examplePlatform"
    by (simp add: examplePlatform_def str_def)
  have a: \<open>JSON_parse (trim (str ''{"eid": [1,'')) = Inl SyntaxError\<close> by code_simp
  have b: \<open>new_URL examplePlatform (trim (str ''{"eid": [1,'')) = Inl TypeError\<close> by code_simp
  have c: \<open>decodeURIComponent (str ''%E0%A4%A'') = Inl URIError\<close> by code_simp
  have d: \<open>RegExp_exec examplePlatform (str ''{"eid": [1,'') \<lparr>pattern = jsonishPattern (str ''e(d''), ignoreCase = True\<rparr> = None\<close>
    by code_simp
  have e: \<open>RegExp_exec examplePlatform (str ''{"eid": [1,'') \<lparr>pattern = genericPattern (str ''e(d''), ignoreCase = True\<rparr> = None\<close>
    by code_simp
  have f: \<open>extractValue examplePlatform (str ''{"eid": [1,'') (str ''e(d'') = Inr Undefined\<close>
    by code_simp
  have g: \<open>extractValue examplePlatform (str ''x e(d: %E0%A4%A'') (str ''e(d'') = Inr (Str (str ''%E0%A4%A''))\<close>
    by code_simp
  have h: "regexpLimit (examplePlatform\<lparr>regexpLimit := 4\<rparr>) < length (str ''e(d'') + 2"
    by (simp add: str_def)
  have t: "trim (str ''e(d'') \<noteq> []" by code_simp
  note 1 = never_throws[of "str ''e(d''" examplePlatform \<open>str ''{"eid": [1,''\<close> SyntaxError
      \<open>str ''%E0%A4%A''\<close>]
  note 2 = never_throws[of "str ''e(d''" examplePlatform \<open>str ''{"eid": [1,''\<close> URIError
      \<open>str ''%E0%A4%A''\<close>]
  note 3 = never_throws[of "str ''e(d''" "examplePlatform\<lparr>regexpLimit := 4\<rparr>"
      \<open>str ''{"eid": [1,''\<close> SyntaxError \<open>str ''%E0%A4%A''\<close>]
  have p1: \<open>tryParseJson (str ''{"eid": [1,'') = Undefined\<close>
    \<open>strictLookup (str ''{"eid": [1,'') (str ''e(d'') = Undefined\<close>
    \<open>searchJsonLike examplePlatform (str ''{"eid": [1,'') (str ''e(d'')
       = jsonishFallback examplePlatform (str ''{"eid": [1,'') (str ''e(d'')\<close>
    using 1 a by blast+
  have p2: \<open>jsonishFallback examplePlatform (str ''{"eid": [1,'') (str ''e(d'') = Inr Undefined\<close>
    \<open>genericFallback examplePlatform (str ''{"eid": [1,'') (str ''e(d'') = Inr Undefined\<close>
    using 1 k d e by blast+
  have p3: "decodeMaybe (str ''%E0%A4%A'') = str ''%E0%A4%A''"
    using 2 c by blast
  have p4: \<open>jsonishFallback (examplePlatform\<lparr>regexpLimit := 4\<rparr>) (str ''{"eid": [1,'') (str ''e(d'')
        = Inl SyntaxError\<close>
    \<open>extractValue (examplePlatform\<lparr>regexpLimit := 4\<rparr>) (str ''{"eid": [1,'') (str ''e(d'')
        = Inl SyntaxError\<close>
    using 3 h t p1(2) by blast+
  from k a b c d e p1 p2 p3 f g h p4 show ?thesis by simp
qed

text \<open>
  C8. In the regular-expression fallback of \<open>searchJsonLike\<close>, when the first match took
  the numeric alternative (group 3), the captured text \<open>s\<close> is a non-empty run of digits,
  \<open>.\<close> and \<open>-\<close>, and the result is \<open>Number(s)\<close> if that is a number and the text \<open>s\<close>
  itself if it is \<open>NaN\<close>: \<open>1.2.3\<close> and \<open>-\<close> come back as strings, \<open>-12\<close> as a number.
\<close>

theorem numeric_literal_result:
  assumes "RegExp (jsonishSource (escapeRegExp key)) True = Inr jsonishRe"
    and "match P input jsonishRe = Inr (Some m)"
    and "m 3 = Str s"
  shows "s \<noteq> [] \<and> list_all isNumericChar s
       \<and> jsonishFallback P input key
           = Inr (if Number_isNaN (Number s) then Str s else Num (Number s))"
proof -
  have re: "jsonishRe = \<lparr>pattern = jsonishPattern key, ignoreCase = True\<rparr>"
    using assms(1) by (simp add: RegExp_jsonish)
  have "RegExp_exec P input jsonishRe = Some m"
    using assms(2) by (simp add: match_def split: if_splits)
  then have g: "s \<noteq> [] \<and> list_all isNumericChar s \<and> m 1 = Undefined \<and> m 2 = Undefined"
    using numeric_group[of P input key m s] assms(3) unfolding re by simp
  have "jsonishResult P m = (if Number_isNaN (Number s) then Str s else Num (Number s))"
    using g assms(3) by (simp add: jsonishResult_def notNullish_def groupText_def Let_def)
  then have "jsonishFallback P input key
           = Inr (if Number_isNaN (Number s) then Str s else Num (Number s))"
    using assms(1,2) by (simp add: jsonishFallback_def Let_def)
  then show ?thesis using g by simp
qed

theorem numeric_literal_result_witness:
  \<open>jsonishFallback examplePlatform (str ''"k": 1.2.3'') (str ''k'') = Inr (Str (str ''1.2.3''))
   \<and> jsonishFallback examplePlatform (str ''"k": -'') (str ''k'') = Inr (Str (str ''-''))
   \<and> jsonishFallback examplePlatform (str ''"k": -12,'') (str ''k'') = Inr (Num (Fin True 12))\<close>
proof -
  let ?re = "\<lparr>pattern = jsonishPattern (str ''k''), ignoreCase = True\<rparr>"
  have re: "RegExp (jsonishSource (escapeRegExp (str ''k''))) True = Inr ?re"
    by (rule RegExp_jsonish)
  have a: \<open>firstMatch examplePlatform ?re (str ''"k": 1.2.3'')
             = Some \<lparr>ahead = [], index = 10, captures = [(3, str ''1.2.3'')]\<rparr>\<close>
    by code_simp
  have b: \<open>firstMatch examplePlatform ?re (str ''"k": -'')
             = Some \<lparr>ahead = [], index = 6, captures = [(3, str ''-'')]\<rparr>\<close>
    by code_simp
  have c: \<open>firstMatch examplePlatform ?re (str ''"k": -12,'')
             = Some \<lparr>ahead = str '','', index = 8, captures = [(3, str ''-12'')]\<rparr>\<close>
    by code_simp
  have nl: "\<not> regexpTooLarge examplePlatform ?re"
    by (simp add: regexpTooLarge_def longestText_jsonishPattern examplePlatform_def str_def)
  have na: "Number_isNaN (Number (str ''1.2.3''))" by code_simp
  have nb: "Number_isNaN (Number (str ''-''))" by code_simp
  have nc: "\<not> Number_isNaN (Number (str ''-12''))" "Number (str ''-12'') = Fin True 12"
    by code_simp+
  have 1: \<open>jsonishFallback examplePlatform (str ''"k": 1.2.3'') (str ''k'') = Inr (Str (str ''1.2.3''))\<close>
    using numeric_literal_result[OF re, of examplePlatform \<open>str ''"k": 1.2.3''\<close> _ "str ''1.2.3''"] na
    by (simp add: match_def nl exec_firstMatch a groupsOf_def)
  have 2: \<open>jsonishFallback examplePlatform (str ''"k": -'') (str ''k'') = Inr (Str (str ''-''))\<close>
    using numeric_literal_result[OF re, of examplePlatform \<open>str ''"k": -''\<close> _ "str ''-''"] nb
    by (simp add: match_def nl exec_firstMatch b groupsOf_def)
  have 3: \<open>jsonishFallback examplePlatform (str ''"k": -12,'') (str ''k'') = Inr (Num (Fin True 12))\<close>
    using numeric_literal_result[OF re, of examplePlatform \<open>str ''"k": -12,''\<close> _ "str ''-12''"] nc
    by (simp add: match_def nl exec_firstMatch c groupsOf_def)
  show ?thesis using 1 2 3 by simp
qed

text \<open>
  C6, as stated, fails: the flag \<open>i\<close> is given to the whole regular expression, so
  matching ignores letter case in the key and in \<open>null\<close> as much as in the boolean
  token. The key \<open>eid\<close> finds the field \<open>"EID"\<close> of a text that nowhere contains \<open>"eid"\<close>,
  and \<open>NULL\<close> is read as \<open>null\<close>.
\<close>

theorem jsonish_case_folded:
  \<open>jsonishFallback examplePlatform (str ''"EID": 5'') (str ''eid'') = Inr (Num (num 5))
   \<and> \<not> contains (str ''"EID": 5'') (str ''"eid"'')
   \<and> jsonishFallback examplePlatform (str ''"eid": NULL'') (str ''eid'') = Inr Null
   \<and> jsonishFallback examplePlatform (str ''"Eid": "A1"'') (str ''eId'') = Inr (Str (str ''A1''))\<close>
  by code_simp

text \<open>
  C6, amended. In the regular-expression fallback of \<open>searchJsonLike\<close> the key stands in
  the pattern as a run of literal characters between double quotes, whatever
  metacharacters it contains; the whole pattern is matched without regard to letter
  case, the key included, so that a result other than absent means the text contains the
  key between double quotes up to letter case, and two keys that differ in letter case
  only give the same result; and the result is read off the first match in the text:
  the leftmost position where the pattern matches, with no regard to later occurrences
  (unless the key is too long for the engine to match at all, when the match throws).
\<close>

theorem jsonish_fallback_matching:
  \<open>RegExp (jsonishSource (escapeRegExp key)) True
      = Inr \<lparr>pattern = jsonishPattern key, ignoreCase = True\<rparr>
   \<and> jsonishFallback P input key
      = (if regexpLimit P < max (length key + 2) 5 then Inl SyntaxError
         else (case firstMatch P \<lparr>pattern = jsonishPattern key, ignoreCase = True\<rparr> input of
                 None \<Rightarrow> Inr Undefined
               | Some st \<Rightarrow> Inr (jsonishResult P (groupsOf st))))
   \<and> (jsonishFallback P input key = Inr v \<and> v \<noteq> Undefined \<longrightarrow>
        (\<exists>pre k' post. input = pre @ ch CHR ''"'' # k' @ ch CHR ''"'' # post
            \<and> map (Canonicalize P True) k' = map (Canonicalize P True) key))
   \<and> (map (Canonicalize P True) key' = map (Canonicalize P True) key \<longrightarrow>
        jsonishFallback P input key' = jsonishFallback P input key)\<close>
  using RegExp_jsonish[of key] jsonishFallback_found[of P input key v]
    jsonishFallback_cong[of P key' key input]
  by (simp add: jsonishFallback_eq exec_firstMatch split: option.splits)

theorem jsonish_fallback_matching_witness:
  \<open>jsonishFallback examplePlatform (str ''"eid": 1, "EID": 2'') (str ''EID'') = Inr (Num (num 1))
   \<and> (\<exists>pre k' post. str ''"eid": 1, "EID": 2'' = pre @ ch CHR ''"'' # k' @ ch CHR ''"'' # post
          \<and> map (Canonicalize examplePlatform True) k'
              = map (Canonicalize examplePlatform True) (str ''eid''))\<close>
proof -
  have a: \<open>jsonishFallback examplePlatform (str ''"eid": 1, "EID": 2'') (str ''eid'') = Inr (Num (num 1))\<close>
    by code_simp
  have b: "map (Canonicalize examplePlatform True) (str ''EID'')
             = map (Canonicalize examplePlatform True) (str ''eid'')"
    by code_simp
  show ?thesis
    using a b jsonish_fallback_matching[of "str ''eid''" examplePlatform
        \<open>str ''"eid": 1, "EID": 2''\<close> "Num (num 1)" "str ''EID''"]
    by simp
qed

end
